theory Spec2Isabelle
  imports Complex_Main "HOL-Library.AList" "HOL-Library.Multiset"
begin

section \<open>Python values and errors\<close>

text \<open>
  The two ZebraKet notebooks compile a set-cover problem (\<open>SetCoverBQM\<close>) and a combined
  knapsack and set-cover problem (\<open>CombinedQUBO\<close>) into coefficient models for a solver.
  The notebooks are Python: integers are unbounded (\<open>int\<close>), loop indices are naturals,
  variable labels are strings, and the coefficient stores are dictionaries, modelled as
  association lists in insertion order. The exceptions that the modelled cells can raise are
  values of \<open>py_error\<close>: \<open>ValueError\<close> is what \<open>math.log2\<close> raises outside its domain
  ("math domain error") and what \<open>max\<close> raises on an empty sequence; \<open>IndexError\<close> is an
  index out of range.
\<close>

datatype py_error = ValueError | IndexError


section \<open>Variable labels\<close>

text \<open>
  Python's \<open>str(n)\<close> for a natural number: its decimal digits, most significant first.
  The labels are built by string concatenation, as in the notebooks:
  \<^verbatim>\<open>'x_' + str(i)\<close>,
  \<^verbatim>\<open>'y_(' + str(a) + ', ' + str(m) + ')'\<close>,
  \<^verbatim>\<open>'z' + str(k) + ',' + str(s)\<close> and
  \<^verbatim>\<open>'w' + str(k)\<close>.
\<close>

definition digit_char :: "nat \<Rightarrow> char" where
  "digit_char d = char_of (48 + d)"

fun str :: "nat \<Rightarrow> string" where
  "str n = (if n < 10 then [digit_char n] else str (n div 10) @ [digit_char (n mod 10)])"

declare str.simps [simp del]

definition x_label :: "nat \<Rightarrow> string" where
  "x_label i = ''x_'' @ str i"

definition y_label :: "nat \<Rightarrow> nat \<Rightarrow> string" where
  "y_label a m = ''y_('' @ str a @ '', '' @ str m @ '')''"

definition z_label :: "nat \<Rightarrow> nat \<Rightarrow> string" where
  "z_label k s = ''z'' @ str k @ '','' @ str s"

definition w_label :: "nat \<Rightarrow> string" where
  "w_label k = ''w'' @ str k"


section \<open>The set-cover model (SetCoverBQM)\<close>

text \<open>
  A binary quadratic model holds a linear bias for each variable, a quadratic bias for each
  pair of variables, and a constant offset, which the builder never sets. The builder uses
  two operations of the model:
  \<^item> \<^verbatim>\<open>bqm.add_variable(v, bias)\<close> adds the variable with its bias (for a variable that
    the model already holds, the bias is added to the one it has; the builder adds every
    label once);
  \<^item> \<^verbatim>\<open>bqm.quadratic[key] = value\<close> is an item assignment: it sets the bias of the pair.

  The energy of an assignment \<open>s\<close> of the variables is the offset plus the linear biases
  of the variables, each times its value, plus the quadratic biases, each times the two
  values of its pair.
\<close>

record bqm =
  linear :: "(string \<times> int) list"
  quadratic :: "((string \<times> string) \<times> int) list"
  offset :: int

definition empty_bqm :: bqm where
  "empty_bqm = \<lparr>linear = [], quadratic = [], offset = 0\<rparr>"

definition add_variable :: "string \<Rightarrow> int \<Rightarrow> bqm \<Rightarrow> bqm" where
  "add_variable v bias m =
     m\<lparr>linear := AList.update v (case map_of (linear m) v of None \<Rightarrow> bias | Some b \<Rightarrow> b + bias)
                    (linear m)\<rparr>"

definition quadratic_setitem :: "string \<times> string \<Rightarrow> int \<Rightarrow> bqm \<Rightarrow> bqm" where
  "quadratic_setitem key bias m = m\<lparr>quadratic := AList.update key bias (quadratic m)\<rparr>"

definition energy :: "bqm \<Rightarrow> (string \<Rightarrow> int) \<Rightarrow> int" where
  "energy m s = offset m + (\<Sum>(v, b) \<leftarrow> linear m. b * s v)
                         + (\<Sum>((u, v), b) \<leftarrow> quadratic m. b * s u * s v)"


text \<open>
  \<^verbatim>\<open>I.append([1 if U[a] in V[i] else 0 for a in range(len(U))])\<close> for each \<open>i\<close>:
  row \<open>i\<close> of \<open>I\<close> says which elements of the universe the set \<open>V[i]\<close> holds.
  \<open>dot\<close> is \<open>np.dot\<close> on two rows.
\<close>

definition indicators :: "'a list \<Rightarrow> 'a set list \<Rightarrow> int list list" where
  "indicators U V =
     map (\<lambda>i. map (\<lambda>a. if U ! a \<in> V ! i then 1 else 0) [0..<length U]) [0..<length V]"

definition dot :: "int list \<Rightarrow> int list \<Rightarrow> int" where
  "dot u v = sum_list (map2 (*) u v)"


text \<open>
  The builder, loop by loop, with its constants \<open>A = 2\<close> and \<open>B = 1\<close>:
  \<^verbatim>\<open>
    x = [bqm.add_variable('x_'+str(i+1), A*sum(I[i])+B) for i in range(0,len(V))]
    for a in range(1,len(U)+1):
        y.append([bqm.add_variable('y_('+str(a)+', '+str(m)+')', A*(m**2-1))
                  for m in range(1,len(V)+1)])
    for i in range(1,len(V)+1):
        for j in range(i+1,len(V)+1):
            key = ('x_' + str(i), 'x_' + str(j))
            bqm.quadratic[key] = 2*A*np.dot(np.array(I[i-1]),np.array(I[j-1]))
    for m in range(1,len(V)+1):
        for n in range(m+1,len(V)+1):
            for a in range(1,len(U)+1):
                key = ('y_('+str(a)+', '+str(m)+')', 'y_('+str(a)+', '+str(n)+')')
                bqm.quadratic[key] = 2*A*(1+m*n)
    for i in range(1,len(V)+1):
        for m in range(1,len(V)+1):
            for a in range(1,len(U)+1):
                key = ('x_' + str(i), 'y_('+str(a)+', '+str(m)+')')
                bqm.quadratic[key] = -2*A*m*I[i-1][a-1]
    return bqm, x
  \<close>
  Every index into \<open>I\<close> is in range, since \<open>I\<close> has \<open>len(V)\<close> rows of \<open>len(U)\<close> entries.
\<close>

definition build_setcover_bqm :: "'a list \<Rightarrow> 'a set list \<Rightarrow> bqm \<times> string list" where
  "build_setcover_bqm U V =
     (let I = indicators U V;
          A = 2;
          B = 1;
          bqm = empty_bqm;
          bqm = fold (\<lambda>i. add_variable (x_label (i + 1)) (A * sum_list (I ! i) + B))
                  [0..<length V] bqm;
          x = map (\<lambda>i. x_label (i + 1)) [0..<length V];
          bqm = fold (\<lambda>a. fold (\<lambda>m. add_variable (y_label a m) (A * ((int m)\<^sup>2 - 1)))
                    [1..<length V + 1]) [1..<length U + 1] bqm;
          bqm = fold (\<lambda>i. fold (\<lambda>j. quadratic_setitem (x_label i, x_label j)
                      (2 * A * dot (I ! (i - 1)) (I ! (j - 1))))
                    [i + 1..<length V + 1]) [1..<length V + 1] bqm;
          bqm = fold (\<lambda>m. fold (\<lambda>n. fold (\<lambda>a. quadratic_setitem (y_label a m, y_label a n)
                      (2 * A * (1 + int m * int n)))
                    [1..<length U + 1]) [m + 1..<length V + 1]) [1..<length V + 1] bqm;
          bqm = fold (\<lambda>i. fold (\<lambda>m. fold (\<lambda>a. quadratic_setitem (x_label i, y_label a m)
                      (- 2 * A * int m * (I ! (i - 1) ! (a - 1))))
                    [1..<length U + 1]) [1..<length V + 1]) [1..<length V + 1] bqm
      in (bqm, x))"


text \<open>
  The Hamiltonian that the notebook states for this model:
  \<open>H = A \<Sum>\<^sub>a (1 - \<Sum>\<^sub>m y\<^sub>a\<^sub>m)\<^sup>2 + A \<Sum>\<^sub>a (\<Sum>\<^sub>m m y\<^sub>a\<^sub>m - \<Sum>\<^sub>i I\<^sub>i\<^sub>a x\<^sub>i)\<^sup>2 + B \<Sum>\<^sub>i x\<^sub>i\<close>,
  with \<open>a\<close> over the elements of the universe and \<open>m\<close>, \<open>i\<close> over \<open>1 .. len(V)\<close>.
\<close>

definition hamiltonian :: "'a list \<Rightarrow> 'a set list \<Rightarrow> (string \<Rightarrow> int) \<Rightarrow> int" where
  "hamiltonian U V s =
     (let I = indicators U V; N = length V; n = length U; A = 2; B = 1
      in A * (\<Sum>a = 1..n. (1 - (\<Sum>m = 1..N. s (y_label a m)))\<^sup>2)
       + A * (\<Sum>a = 1..n. ((\<Sum>m = 1..N. int m * s (y_label a m))
                          - (\<Sum>i = 1..N. I ! (i - 1) ! (a - 1) * s (x_label i)))\<^sup>2)
       + B * (\<Sum>i = 1..N. s (x_label i)))"


section \<open>The budget slack weights (CombinedQUBO)\<close>

text \<open>
  \<^verbatim>\<open>M = floor(log2(weight_capacity))\<close>. The logarithm is taken exactly here:
  \<open>floor_log2_nat\<close> halves its argument, and \<open>floor_log2_nat_is_floor_log\<close> below shows that
  it is the floor of the real binary logarithm. (Python computes \<open>log2\<close> in double precision;
  the rounding of that computation is outside this model.) Outside the domain of the logarithm
  \<open>log2\<close> raises \<open>ValueError\<close>.
\<close>

fun floor_log2_nat :: "nat \<Rightarrow> nat" where
  "floor_log2_nat n = (if n < 2 then 0 else Suc (floor_log2_nat (n div 2)))"

declare floor_log2_nat.simps [simp del]

definition floor_log2 :: "int \<Rightarrow> py_error + nat" where
  "floor_log2 x = (if x \<le> 0 then Inl ValueError else Inr (floor_log2_nat (nat x)))"


text \<open>
  \<^verbatim>\<open>w = [2**n for n in range(M)]; w.append(weight_capacity + 1 - 2**M)\<close>:
  the \<open>M + 1\<close> weights of the binary slack variables \<open>w0 .. wM\<close>.
\<close>

definition slack_weights :: "int \<Rightarrow> py_error + int list" where
  "slack_weights weight_capacity =
     (case floor_log2 weight_capacity of
        Inl e \<Rightarrow> Inl e
      | Inr M \<Rightarrow> Inr (map (\<lambda>n. 2 ^ n) [0..<M] @ [weight_capacity + 1 - 2 ^ M]))"





section \<open>The combined model (CombinedQUBO)\<close>

text \<open>
  A discrete quadratic model holds, for each variable, its number of cases and one linear
  bias for each case, and for a pair of variables a dictionary from pairs of cases to
  biases. The builder uses three operations:
  \<^item> \<^verbatim>\<open>dqm.add_variable(num_cases, label=...)\<close> declares a variable, with zero biases;
  \<^item> \<^verbatim>\<open>dqm.set_linear(v, biases)\<close> sets the linear biases of \<open>v\<close>;
  \<^item> \<^verbatim>\<open>dqm.set_quadratic(u, v, biases)\<close> sets the biases of the pair \<open>(u, v)\<close>.

  The biases are floating-point numbers in the notebook (\<open>lagrange = max(values)*0.5\<close>);
  they are rationals here, so the arithmetic is exact. The energy of a sample (a case for
  each variable) is the sum of the linear biases of the chosen cases and of the quadratic
  biases of the chosen pairs of cases; \<open>quadratic_bias\<close> reads one bias, zero where the
  model holds none.
\<close>

record dqm =
  variables :: "(string \<times> nat) list"
  linear_biases :: "(string \<times> rat list) list"
  quadratic_biases :: "((string \<times> string) \<times> ((nat \<times> nat) \<times> rat) list) list"

definition empty_dqm :: dqm where
  "empty_dqm = \<lparr>variables = [], linear_biases = [], quadratic_biases = []\<rparr>"

definition dqm_add_variable :: "nat \<Rightarrow> string \<Rightarrow> dqm \<Rightarrow> dqm" where
  "dqm_add_variable num_cases label m =
     m\<lparr>variables := variables m @ [(label, num_cases)],
       linear_biases := linear_biases m @ [(label, replicate num_cases 0)]\<rparr>"

definition set_linear :: "string \<Rightarrow> rat list \<Rightarrow> dqm \<Rightarrow> dqm" where
  "set_linear v biases m = m\<lparr>linear_biases := AList.update v biases (linear_biases m)\<rparr>"

definition set_quadratic :: "string \<Rightarrow> string \<Rightarrow> ((nat \<times> nat) \<times> rat) list \<Rightarrow> dqm \<Rightarrow> dqm" where
  "set_quadratic u v biases m =
     m\<lparr>quadratic_biases := AList.update (u, v) biases (quadratic_biases m)\<rparr>"

definition dqm_energy :: "dqm \<Rightarrow> (string \<Rightarrow> nat) \<Rightarrow> rat" where
  "dqm_energy m s =
     (\<Sum>(v, biases) \<leftarrow> linear_biases m. biases ! s v)
   + (\<Sum>((u, v), biases) \<leftarrow> quadratic_biases m.
        case map_of biases (s u, s v) of None \<Rightarrow> 0 | Some b \<Rightarrow> b)"

definition quadratic_bias :: "dqm \<Rightarrow> string \<Rightarrow> string \<Rightarrow> nat \<Rightarrow> nat \<Rightarrow> rat" where
  "quadratic_bias m u v p q =
     (case map_of (quadratic_biases m) (u, v) of
        None \<Rightarrow> 0
      | Some d \<Rightarrow> (case map_of d (p, q) of None \<Rightarrow> 0 | Some b \<Rightarrow> b))"


text \<open>
  The cell indexes \<open>bound[k]\<close>, \<open>values[k]\<close> and \<open>weights[k][s]\<close> for every item
  \<open>k < len(values)\<close> and supplier \<open>s < len(S)\<close>; a list that is too short raises
  \<open>IndexError\<close>. \<open>dims_ok\<close> says that no index is out of range.
\<close>

definition dims_ok :: "int list \<Rightarrow> int list list \<Rightarrow> nat list \<Rightarrow> nat \<Rightarrow> bool" where
  "dims_ok values weights bound nS \<longleftrightarrow>
     length values \<le> length bound \<and>
     (nS = 0 \<or> (length values \<le> length weights \<and>
                 list_all (\<lambda>k. nS \<le> length (weights ! k)) [0..<length values]))"


text \<open>
  The variables of the knapsack part:
  \<^verbatim>\<open>
    for k in range(x_size):
        for s in range(len(S)):
            z.append(dqm.add_variable(bound[k], label='z' + str(k) + ',' + str(s)))
    for k in range(num_slack_variables):
        dqm.add_variable(2, label='w' + str(k))
  \<close>
\<close>

definition knapsack_variables :: "nat \<Rightarrow> nat \<Rightarrow> nat list \<Rightarrow> nat \<Rightarrow> dqm \<Rightarrow> dqm" where
  "knapsack_variables x_size nS bound num_slack_variables dqm =
     (let dqm = fold (\<lambda>k. fold (\<lambda>s. dqm_add_variable (bound ! k) (z_label k s)) [0..<nS])
                  [0..<x_size] dqm;
          dqm = fold (\<lambda>k. dqm_add_variable 2 (w_label k)) [0..<num_slack_variables] dqm
      in dqm)"


text \<open>
  The knapsack terms. \<open>pieces = range(bound[k])\<close> are the cases of an item.
  \<^verbatim>\<open>
    for k in range(x_size):
        pieces = range(bound[k])
        for s in range(len(S)):
            dqm.set_linear('z' + str(k) + ',' + str(s),
                lagrange * (weights[k][s]**2) * (np.array(pieces)**2) + (C-values[k])*pieces)
    for i in range(x_size):
        for j in range(i + 1, x_size):
            for s1 in range(len(S)):
                for s2 in range(len(S)):
                    biases_dict = {}
                    for piece1 in range(bound[i]):
                        for piece2 in range(bound[j]):
                            biases_dict[(piece1, piece2)]=(2 * lagrange * weights[i][s1] * weights[j][s2])*piece1*piece2
                    dqm.set_quadratic('z' + str(i)+ ',' + str(s1), 'z' + str(j)+ ',' + str(s2), biases_dict)
    for k in range(num_slack_variables):
        dqm.set_linear('w' + str(k), lagrange*np.array([0,1])* (w[k]**2))
    for i in range(num_slack_variables):
        for j in range(i + 1, num_slack_variables):
            dqm.set_quadratic('w' + str(i), 'w' + str(j), {(1,1):2 * lagrange * w[i] * w[j]})
    for i in range(x_size):
        for s in range(len(S)):
            for j in range(num_slack_variables):
                biases_dict = {}
                for piece1 in range(bound[i]):
                    biases_dict[(piece1, 1)]=-2 * lagrange * weights[i][s] * w[j]*piece1
                dqm.set_quadratic('z' + str(i)+ ',' + str(s), 'w' + str(j), biases_dict)
  \<close>
\<close>

definition knapsack_terms ::
  "rat \<Rightarrow> int \<Rightarrow> int list \<Rightarrow> int list list \<Rightarrow> nat list \<Rightarrow> nat \<Rightarrow> int list \<Rightarrow> dqm \<Rightarrow> dqm" where
  "knapsack_terms lagrange C values weights bound nS w dqm =
     (let x_size = length values;
          num_slack_variables = length w;
          dqm = fold (\<lambda>k. fold (\<lambda>s. set_linear (z_label k s)
                    (map (\<lambda>p. lagrange * of_int ((weights ! k ! s)\<^sup>2) * of_nat (p\<^sup>2)
                                + of_int (C - values ! k) * of_nat p) [0..<bound ! k]))
                  [0..<nS]) [0..<x_size] dqm;
          dqm = fold (\<lambda>i. fold (\<lambda>j. fold (\<lambda>s1. fold (\<lambda>s2.
                    set_quadratic (z_label i s1) (z_label j s2)
                      (concat (map (\<lambda>piece1. map (\<lambda>piece2. ((piece1, piece2),
                          (2 * lagrange * of_int (weights ! i ! s1) * of_int (weights ! j ! s2))
                            * of_nat piece1 * of_nat piece2))
                        [0..<bound ! j]) [0..<bound ! i])))
                  [0..<nS]) [0..<nS]) [i + 1..<x_size]) [0..<x_size] dqm;
          dqm = fold (\<lambda>k. set_linear (w_label k)
                    (map (\<lambda>c. lagrange * c * of_int ((w ! k)\<^sup>2)) [0, 1]))
                  [0..<num_slack_variables] dqm;
          dqm = fold (\<lambda>i. fold (\<lambda>j. set_quadratic (w_label i) (w_label j)
                    [((1, 1), 2 * lagrange * of_int (w ! i) * of_int (w ! j))])
                  [i + 1..<num_slack_variables]) [0..<num_slack_variables] dqm;
          dqm = fold (\<lambda>i. fold (\<lambda>s. fold (\<lambda>j. set_quadratic (z_label i s) (w_label j)
                    (map (\<lambda>piece1. ((piece1, 1),
                        - 2 * lagrange * of_int (weights ! i ! s) * of_int (w ! j) * of_nat piece1))
                      [0..<bound ! i]))
                  [0..<num_slack_variables]) [0..<nS]) [0..<x_size] dqm
      in dqm)"


text \<open>
  The set-cover part, with \<open>A = 2000\<close> and \<open>B = 1000\<close>: the loops of the set-cover
  builder again, on the discrete model.
  \<^verbatim>\<open>
    for i in range(0,len(S)):
        x.append(dqm.add_variable(2, label='x_'+str(i+1)))
        dqm.set_linear('x_'+str(i+1), (A*sum(I[i])+B)*np.array([0,1]))
    for a in range(1,len(U)+1):
        for m in range(1,len(S)+1):
            y.append(dqm.add_variable(2, label ='y_('+str(a)+', '+str(m)+')'))
            dqm.set_linear('y_('+str(a)+', '+str(m)+')', A*(m**2-1)*np.array([0,1]))
    for i in range(1,len(S)+1):
        for j in range(i+1,len(S)+1):
            dqm.set_quadratic('x_' + str(i), 'x_' + str(j),
                {(1,1):2*A*np.dot(np.array(I[i-1]),np.array(I[j-1]))})
    for m in range(1,len(S)+1):
        for n in range(m+1,len(S)+1):
            for a in range(1,len(U)+1):
                dqm.set_quadratic('y_('+str(a)+', '+str(m)+')', 'y_('+str(a)+', '+str(n)+')',
                    {(1,1): 2*A*(1+m*n)})
    for i in range(1,len(S)+1):
        for m in range(1,len(S)+1):
            for a in range(1,len(U)+1):
                dqm.set_quadratic('x_' + str(i), 'y_('+str(a)+', '+str(m)+')',
                    {(1,1):-2*A*m*I[i-1][a-1]})
  \<close>
\<close>

definition setcover_terms :: "int list list \<Rightarrow> nat \<Rightarrow> nat \<Rightarrow> dqm \<Rightarrow> dqm" where
  "setcover_terms I nS nU dqm =
     (let A = 2000;
          B = 1000;
          dqm = fold (\<lambda>i m. set_linear (x_label (i + 1))
                    (map (\<lambda>c. of_int ((A * sum_list (I ! i) + B) * c)) [0, 1])
                    (dqm_add_variable 2 (x_label (i + 1)) m))
                  [0..<nS] dqm;
          dqm = fold (\<lambda>a. fold (\<lambda>m d. set_linear (y_label a m)
                    (map (\<lambda>c. of_int (A * ((int m)\<^sup>2 - 1) * c)) [0, 1])
                    (dqm_add_variable 2 (y_label a m) d))
                  [1..<nS + 1]) [1..<nU + 1] dqm;
          dqm = fold (\<lambda>i. fold (\<lambda>j. set_quadratic (x_label i) (x_label j)
                    [((1, 1), of_int (2 * A * dot (I ! (i - 1)) (I ! (j - 1))))])
                  [i + 1..<nS + 1]) [1..<nS + 1] dqm;
          dqm = fold (\<lambda>m. fold (\<lambda>n. fold (\<lambda>a. set_quadratic (y_label a m) (y_label a n)
                    [((1, 1), of_int (2 * A * (1 + int m * int n)))])
                  [1..<nU + 1]) [m + 1..<nS + 1]) [1..<nS + 1] dqm;
          dqm = fold (\<lambda>i. fold (\<lambda>m. fold (\<lambda>a. set_quadratic (x_label i) (y_label a m)
                    [((1, 1), of_int (- 2 * A * int m * (I ! (i - 1) ! (a - 1))))])
                  [1..<nU + 1]) [1..<nS + 1]) [1..<nS + 1] dqm
      in dqm)"


text \<open>
  The H3 loop, which links a purchase variable to the selection variable of its supplier:
  \<^verbatim>\<open>
    for i in range(x_size):
        for s in range(1,len(S)):
            for j in range(num_slack_variables):
                biases_dict = {}
                for piece1 in range(bound[i]):
                    biases_dict[(piece1, 1)]=-C * piece1
                dqm.set_quadratic('z' + str(i)+ ',' + str(s), 'x_' + str(s+1), biases_dict)
  \<close>
\<close>

definition h3_terms :: "int \<Rightarrow> nat \<Rightarrow> nat list \<Rightarrow> nat \<Rightarrow> nat \<Rightarrow> dqm \<Rightarrow> dqm" where
  "h3_terms C x_size bound nS num_slack_variables dqm =
     fold (\<lambda>i. fold (\<lambda>s. fold (\<lambda>j. set_quadratic (z_label i s) (x_label (s + 1))
              (map (\<lambda>piece1. ((piece1, 1), of_int (- C * int piece1))) [0..<bound ! i]))
            [0..<num_slack_variables]) [1..<nS]) [0..<x_size] dqm"


text \<open>
  The cell as a whole. \<open>bound = [b+1 for b in bound]\<close> counts the case 0 as well;
  \<open>lagrange = max(values)*0.5\<close> and \<open>C = 0\<close> are the penalty weights;
  \<open>num_slack_variables = M + 1\<close> is the number of slack weights.
\<close>

definition build_combined_dqm ::
  "'a list \<Rightarrow> 'a set list \<Rightarrow> int list list \<Rightarrow> int \<Rightarrow> int list \<Rightarrow> nat list \<Rightarrow> py_error + dqm" where
  "build_combined_dqm U S W Wbudget V bound =
     (let I = indicators U S;
          values = V;
          weight_capacity = Wbudget;
          weights = W;
          bound = map (\<lambda>b. b + 1) bound
      in if values = [] then Inl ValueError
         else
           let lagrange = of_int (Max (set values)) * (1 / 2);
               C = 0;
               x_size = length values
           in case slack_weights weight_capacity of
                Inl e \<Rightarrow> Inl e
              | Inr w \<Rightarrow>
                  if dims_ok values weights bound (length S)
                  then Inr (h3_terms C x_size bound (length S) (length w)
                         (setcover_terms I (length S) (length U)
                           (knapsack_terms lagrange C values weights bound (length S) w
                             (knapsack_variables x_size (length S) bound (length w) empty_dqm))))
                  else Inl IndexError)"


text \<open>
  For comparison, the same cell with the H3 loop left out.
\<close>

definition build_combined_dqm_without_h3 ::
  "'a list \<Rightarrow> 'a set list \<Rightarrow> int list list \<Rightarrow> int \<Rightarrow> int list \<Rightarrow> nat list \<Rightarrow> py_error + dqm" where
  "build_combined_dqm_without_h3 U S W Wbudget V bound =
     (let I = indicators U S;
          values = V;
          weight_capacity = Wbudget;
          weights = W;
          bound = map (\<lambda>b. b + 1) bound
      in if values = [] then Inl ValueError
         else
           let lagrange = of_int (Max (set values)) * (1 / 2);
               C = 0;
               x_size = length values
           in case slack_weights weight_capacity of
                Inl e \<Rightarrow> Inl e
              | Inr w \<Rightarrow>
                  if dims_ok values weights bound (length S)
                  then Inr (setcover_terms I (length S) (length U)
                           (knapsack_terms lagrange C values weights bound (length S) w
                             (knapsack_variables x_size (length S) bound (length w) empty_dqm)))
                  else Inl IndexError)"


section \<open>A quadratic write that refuses a self-pair\<close>

text \<open>
  Modelled from the spec: the operation that refuses a quadratic coefficient for a pair
  \<open>(v, v)\<close> is not in the notebooks. They write \<^verbatim>\<open>bqm.quadratic[key] = value\<close>,
  and a check of the key, if there is one, is inside the model class that they import.
  The specification says of the insertion of a quadratic coefficient that it "must reject a
  self-pair (\<open>var_a == var_b\<close>)". \<open>checked_quadratic_setitem\<close> is the assignment behind that
  check, and \<open>checked_writes\<close> runs a sequence of writes through it, stopping at the first
  one refused.
\<close>

definition checked_quadratic_setitem :: "string \<times> string \<Rightarrow> int \<Rightarrow> bqm \<Rightarrow> py_error + bqm" where
  "checked_quadratic_setitem key bias m =
     (if fst key = snd key then Inl ValueError else Inr (quadratic_setitem key bias m))"

fun checked_writes :: "((string \<times> string) \<times> int) list \<Rightarrow> bqm \<Rightarrow> py_error + bqm" where
  "checked_writes [] m = Inr m"
| "checked_writes ((key, bias) # ws) m =
     (case checked_quadratic_setitem key bias m of
        Inl e \<Rightarrow> Inl e
      | Inr m' \<Rightarrow> checked_writes ws m')"


section \<open>Definitions for the proofs\<close>

text \<open>
  \<open>quadratic_writes\<close> is a sequence of item assignments. The lists below are the writes of
  each loop of the two builders, in the order of the loop; the builders are shown to perform
  exactly these writes. \<open>ind\<close> is the entry of the indicator table with indices counted
  from 1, as the loops count them.
\<close>

definition quadratic_writes :: "((string \<times> string) \<times> int) list \<Rightarrow> bqm \<Rightarrow> bqm" where
  "quadratic_writes ws m = fold (\<lambda>(key, bias). quadratic_setitem key bias) ws m"

definition x_linear_terms :: "int list list \<Rightarrow> nat \<Rightarrow> int \<Rightarrow> int \<Rightarrow> (string \<times> int) list" where
  "x_linear_terms I N A B = map (\<lambda>i. (x_label (i + 1), A * sum_list (I ! i) + B)) [0..<N]"

definition y_linear_terms :: "nat \<Rightarrow> nat \<Rightarrow> int \<Rightarrow> (string \<times> int) list" where
  "y_linear_terms N n A =
     concat (map (\<lambda>a. map (\<lambda>m. (y_label a m, A * ((int m)\<^sup>2 - 1))) [1..<N + 1]) [1..<n + 1])"

definition xx_terms :: "int list list \<Rightarrow> nat \<Rightarrow> int \<Rightarrow> ((string \<times> string) \<times> int) list" where
  "xx_terms I N A =
     concat (map (\<lambda>i. map (\<lambda>j. ((x_label i, x_label j), 2 * A * dot (I ! (i - 1)) (I ! (j - 1))))
       [i + 1..<N + 1]) [1..<N + 1])"

definition yy_terms :: "nat \<Rightarrow> nat \<Rightarrow> int \<Rightarrow> ((string \<times> string) \<times> int) list" where
  "yy_terms N n A =
     concat (map (\<lambda>m. concat (map (\<lambda>n'. map (\<lambda>a.
         ((y_label a m, y_label a n'), 2 * A * (1 + int m * int n')))
       [1..<n + 1]) [m + 1..<N + 1])) [1..<N + 1])"

definition xy_terms :: "int list list \<Rightarrow> nat \<Rightarrow> nat \<Rightarrow> int \<Rightarrow> ((string \<times> string) \<times> int) list" where
  "xy_terms I N n A =
     concat (map (\<lambda>i. concat (map (\<lambda>m. map (\<lambda>a.
         ((x_label i, y_label a m), - 2 * A * int m * (I ! (i - 1) ! (a - 1))))
       [1..<n + 1]) [1..<N + 1])) [1..<N + 1])"

definition ind :: "'a list \<Rightarrow> 'a set list \<Rightarrow> nat \<Rightarrow> nat \<Rightarrow> int" where
  "ind U V a i = (if U ! (a - 1) \<in> V ! (i - 1) then 1 else 0)"


definition z_variable_terms :: "nat \<Rightarrow> nat \<Rightarrow> nat list \<Rightarrow> (string \<times> nat) list" where
  "z_variable_terms x_size nS bound =
     concat (map (\<lambda>k. map (\<lambda>s. (z_label k s, bound ! k)) [0..<nS]) [0..<x_size])"

definition w_variable_terms :: "nat \<Rightarrow> (string \<times> nat) list" where
  "w_variable_terms num_slack_variables = map (\<lambda>k. (w_label k, 2)) [0..<num_slack_variables]"

definition z_linear_terms ::
  "rat \<Rightarrow> int \<Rightarrow> int list \<Rightarrow> int list list \<Rightarrow> nat list \<Rightarrow> nat \<Rightarrow> (string \<times> rat list) list" where
  "z_linear_terms lagrange C values weights bound nS =
     concat (map (\<lambda>k. map (\<lambda>s. (z_label k s,
         map (\<lambda>p. lagrange * of_int ((weights ! k ! s)\<^sup>2) * of_nat (p\<^sup>2)
                    + of_int (C - values ! k) * of_nat p) [0..<bound ! k]))
       [0..<nS]) [0..<length values])"

definition w_linear_terms :: "rat \<Rightarrow> int list \<Rightarrow> (string \<times> rat list) list" where
  "w_linear_terms lagrange w =
     map (\<lambda>k. (w_label k, map (\<lambda>c. lagrange * c * of_int ((w ! k)\<^sup>2)) [0, 1])) [0..<length w]"

definition zz_terms ::
  "rat \<Rightarrow> int list list \<Rightarrow> nat list \<Rightarrow> nat \<Rightarrow> nat
     \<Rightarrow> ((string \<times> string) \<times> ((nat \<times> nat) \<times> rat) list) list" where
  "zz_terms lagrange weights bound nS x_size =
     concat (map (\<lambda>i. concat (map (\<lambda>j. concat (map (\<lambda>s1. map (\<lambda>s2.
         ((z_label i s1, z_label j s2),
          concat (map (\<lambda>piece1. map (\<lambda>piece2. ((piece1, piece2),
              (2 * lagrange * of_int (weights ! i ! s1) * of_int (weights ! j ! s2))
                * of_nat piece1 * of_nat piece2))
            [0..<bound ! j]) [0..<bound ! i])))
       [0..<nS]) [0..<nS])) [i + 1..<x_size])) [0..<x_size])"

definition ww_terms :: "rat \<Rightarrow> int list \<Rightarrow> ((string \<times> string) \<times> ((nat \<times> nat) \<times> rat) list) list" where
  "ww_terms lagrange w =
     concat (map (\<lambda>i. map (\<lambda>j. ((w_label i, w_label j),
         [((1, 1), 2 * lagrange * of_int (w ! i) * of_int (w ! j))]))
       [i + 1..<length w]) [0..<length w])"

definition zw_terms ::
  "rat \<Rightarrow> int list list \<Rightarrow> nat list \<Rightarrow> nat \<Rightarrow> nat \<Rightarrow> int list
     \<Rightarrow> ((string \<times> string) \<times> ((nat \<times> nat) \<times> rat) list) list" where
  "zw_terms lagrange weights bound nS x_size w =
     concat (map (\<lambda>i. concat (map (\<lambda>s. map (\<lambda>j. ((z_label i s, w_label j),
         map (\<lambda>piece1. ((piece1, 1),
             - 2 * lagrange * of_int (weights ! i ! s) * of_int (w ! j) * of_nat piece1))
           [0..<bound ! i]))
       [0..<length w]) [0..<nS])) [0..<x_size])"

definition dqm_xx_terms ::
  "int list list \<Rightarrow> nat \<Rightarrow> ((string \<times> string) \<times> ((nat \<times> nat) \<times> rat) list) list" where
  "dqm_xx_terms I nS =
     concat (map (\<lambda>i. map (\<lambda>j. ((x_label i, x_label j),
         [((1, 1), of_int (2 * 2000 * dot (I ! (i - 1)) (I ! (j - 1))))]))
       [i + 1..<nS + 1]) [1..<nS + 1])"

definition dqm_yy_terms ::
  "nat \<Rightarrow> nat \<Rightarrow> ((string \<times> string) \<times> ((nat \<times> nat) \<times> rat) list) list" where
  "dqm_yy_terms nS nU =
     concat (map (\<lambda>m. concat (map (\<lambda>n. map (\<lambda>a. ((y_label a m, y_label a n),
         [((1, 1), of_int (2 * 2000 * (1 + int m * int n)))]))
       [1..<nU + 1]) [m + 1..<nS + 1])) [1..<nS + 1])"

definition dqm_xy_terms ::
  "int list list \<Rightarrow> nat \<Rightarrow> nat \<Rightarrow> ((string \<times> string) \<times> ((nat \<times> nat) \<times> rat) list) list" where
  "dqm_xy_terms I nS nU =
     concat (map (\<lambda>i. concat (map (\<lambda>m. map (\<lambda>a. ((x_label i, y_label a m),
         [((1, 1), of_int (- 2 * 2000 * int m * (I ! (i - 1) ! (a - 1))))]))
       [1..<nU + 1]) [1..<nS + 1])) [1..<nS + 1])"

definition h3_writes ::
  "int \<Rightarrow> nat \<Rightarrow> nat list \<Rightarrow> nat \<Rightarrow> nat \<Rightarrow> ((string \<times> string) \<times> ((nat \<times> nat) \<times> rat) list) list" where
  "h3_writes C x_size bound nS num_slack_variables =
     concat (map (\<lambda>i. concat (map (\<lambda>s. map (\<lambda>j. ((z_label i s, x_label (s + 1)),
         map (\<lambda>piece1. ((piece1, 1), of_int (- C * int piece1))) [0..<bound ! i]))
       [0..<num_slack_variables]) [1..<nS])) [0..<x_size])"


text \<open>
  A dictionary of biases that are all zero, and the quadratic part of the energy.
\<close>

definition zero_biases :: "((nat \<times> nat) \<times> rat) list \<Rightarrow> bool" where
  "zero_biases d \<longleftrightarrow> list_all (\<lambda>(c, b). b = 0) d"

definition quadratic_energy ::
  "((string \<times> string) \<times> ((nat \<times> nat) \<times> rat) list) list \<Rightarrow> (string \<Rightarrow> nat) \<Rightarrow> rat" where
  "quadratic_energy al s =
     (\<Sum>((u, v), biases) \<leftarrow> al. case map_of biases (s u, s v) of None \<Rightarrow> 0 | Some b \<Rightarrow> b)"


text \<open>
  Two small instances. The universe is \<open>{a, b}\<close> with the candidate sets \<open>{a}\<close> and
  \<open>{a, b}\<close>; \<open>example_best\<close> selects the second set only, \<open>example_both\<close> selects both.
  In the combined instance item \<open>b\<close> is not sold by supplier 0, so its cost there is the
  sentinel \<open>-1\<close>.
\<close>

definition example_U :: "char list" where
  "example_U = [CHR ''a'', CHR ''b'']"

definition example_V :: "char set list" where
  "example_V = [{CHR ''a''}, {CHR ''a'', CHR ''b''}]"

definition example_best :: "string \<Rightarrow> int" where
  "example_best v = (if v = ''x_2'' \<or> v = ''y_(1, 1)'' \<or> v = ''y_(2, 1)'' then 1 else 0)"

definition example_both :: "string \<Rightarrow> int" where
  "example_both v = (if v = ''x_1'' \<or> v = ''x_2'' \<or> v = ''y_(1, 2)'' \<or> v = ''y_(2, 1)'' then 1 else 0)"

definition example_S :: "char set list" where
  "example_S = [{CHR ''a''}, {CHR ''a'', CHR ''b''}]"

definition example_W :: "int list list" where
  "example_W = [[3, 4], [- 1, 5]]"

definition example_values :: "int list" where
  "example_values = [4, 6]"

definition example_bound :: "nat list" where
  "example_bound = [1, 1]"


section \<open>Lemmas\<close>

subsection \<open>The binary logarithm and the slack weights\<close>

lemma floor_log2_nat_bounds:
  "0 < n \<Longrightarrow> 2 ^ floor_log2_nat n \<le> n \<and> n < 2 ^ Suc (floor_log2_nat n)"
proof (induction n rule: floor_log2_nat.induct)
  case (1 n)
  show ?case
  proof (cases "n < 2")
    case True
    with "1.prems" have "n = 1" by simp
    then show ?thesis by (simp add: floor_log2_nat.simps)
  next
    case False
    then have pos: "0 < n div 2" by simp
    from "1.IH" [OF False pos]
    have lo: "2 ^ floor_log2_nat (n div 2) \<le> n div 2"
      and hi: "n div 2 < 2 ^ Suc (floor_log2_nat (n div 2))" by simp_all
    have eq: "floor_log2_nat n = Suc (floor_log2_nat (n div 2))"
      using False by (subst floor_log2_nat.simps) simp
    from lo have "2 * 2 ^ floor_log2_nat (n div 2) \<le> n" by linarith
    moreover from hi have "n < 2 * 2 ^ Suc (floor_log2_nat (n div 2))" by linarith
    ultimately show ?thesis by (simp add: eq)
  qed
qed

lemma floor_log2_nat_is_floor_log:
  assumes "0 < n"
  shows "int (floor_log2_nat n) = \<lfloor>log 2 (real n)\<rfloor>"
proof -
  from floor_log2_nat_bounds [OF assms]
  have "2 ^ floor_log2_nat n \<le> n" "n < 2 ^ (floor_log2_nat n + 1)" by simp_all
  then show ?thesis
    using floor_log_nat_eq_if [of 2 "floor_log2_nat n" n] by simp
qed





subsection \<open>Labels are injective\<close>

lemma digit_char_inj: "d < 10 \<Longrightarrow> e < 10 \<Longrightarrow> digit_char d = digit_char e \<Longrightarrow> d = e"
  by (simp add: digit_char_def char_of_eq_iff take_bit_eq_mod)

lemma str_not_Nil [simp]: "str n \<noteq> []"
  by (subst str.simps) simp

lemma Nil_not_str [simp]: "[] \<noteq> str n"
  using str_not_Nil [of n] by metis

lemma str_inj: "str n = str m \<Longrightarrow> n = m"
proof (induction n arbitrary: m rule: str.induct)
  case (1 n)
  show ?case
  proof (cases "n < 10")
    case n: True
    show ?thesis
    proof (cases "m < 10")
      case True
      with n "1.prems" show ?thesis
        by (simp add: str.simps [of n] str.simps [of m] digit_char_inj)
    next
      case False
      with n "1.prems" show ?thesis
        by (simp add: str.simps [of n] str.simps [of m])
    qed
  next
    case n: False
    show ?thesis
    proof (cases "m < 10")
      case True
      with n "1.prems" show ?thesis
        by (simp add: str.simps [of n] str.simps [of m])
    next
      case False
      with n "1.prems" have "str (n div 10) = str (m div 10)"
        and "digit_char (n mod 10) = digit_char (m mod 10)"
        by (simp_all add: str.simps [of n] str.simps [of m])
      then have "n div 10 = m div 10" "n mod 10 = m mod 10"
        using "1.IH" [OF n] by (auto intro: digit_char_inj)
      then show ?thesis
        by (metis div_mult_mod_eq)
    qed
  qed
qed

lemma str_eq_iff [simp]: "str n = str m \<longleftrightarrow> n = m"
  by (auto dest: str_inj)

lemma digit_char_not_comma: "d < 10 \<Longrightarrow> digit_char d \<noteq> CHR '',''"
  by (simp add: digit_char_def char_of_eq_iff take_bit_eq_mod flip: char_of_char [of "CHR '',''"])

lemma comma_notin_str [simp]: "CHR '','' \<notin> set (str n)"
proof (induction n rule: str.induct)
  case (1 n)
  show ?case
  proof (cases "n < 10")
    case True
    then show ?thesis
      using digit_char_not_comma [of n] by (subst str.simps) auto
  next
    case False
    have "n mod 10 < 10" by simp
    then have "digit_char (n mod 10) \<noteq> CHR '',''" by (rule digit_char_not_comma)
    with False "1.IH" show ?thesis
      by (subst str.simps) auto
  qed
qed

lemma x_label_eq_iff [simp]: "x_label i = x_label j \<longleftrightarrow> i = j"
  by (simp add: x_label_def)

lemma y_label_eq_iff [simp]: "y_label a m = y_label b n \<longleftrightarrow> a = b \<and> m = n"
proof -
  have "str a @ CHR '','' # (CHR '' '' # str m @ '')'') = str b @ CHR '','' # (CHR '' '' # str n @ '')'')
        \<longleftrightarrow> str a = str b \<and> CHR '' '' # str m @ '')'' = CHR '' '' # str n @ '')''"
    by (rule append_Cons_eq_iff) simp_all
  then show ?thesis
    by (simp add: y_label_def)
qed

lemma x_label_neq_y_label [simp]: "x_label i \<noteq> y_label a m" "y_label a m \<noteq> x_label i"
  by (simp_all add: x_label_def y_label_def)

subsection \<open>Association lists and nested loops\<close>

lemma update_fresh: "k \<notin> fst ` set al \<Longrightarrow> AList.update k v al = al @ [(k, v)]"
  by (induction al) auto

lemma fold_update_fresh:
  "distinct (map fst es) \<Longrightarrow> fst ` set al \<inter> fst ` set es = {} \<Longrightarrow>
   fold (\<lambda>(k, v). AList.update k v) es al = al @ es"
proof (induction es arbitrary: al)
  case Nil
  show ?case by simp
next
  case (Cons e es)
  obtain k v where e: "e = (k, v)" by (cases e)
  from Cons.prems have fresh: "k \<notin> fst ` set al" by (auto simp: e)
  have "fold (\<lambda>(k, v). AList.update k v) es (al @ [(k, v)]) = (al @ [(k, v)]) @ es"
    using Cons.prems by (intro Cons.IH) (auto simp: e)
  then show ?case
    by (simp add: e update_fresh [OF fresh])
qed

lemma distinct_concat_map:
  "distinct xs \<Longrightarrow> (\<And>x. x \<in> set xs \<Longrightarrow> distinct (f x)) \<Longrightarrow>
   (\<And>x y. x \<in> set xs \<Longrightarrow> y \<in> set xs \<Longrightarrow> x \<noteq> y \<Longrightarrow> set (f x) \<inter> set (f y) = {}) \<Longrightarrow>
   distinct (concat (map f xs))"
  by (induction xs) fastforce+

lemma fold_concat: "fold f (concat xss) = fold (fold f) xss"
  by (induction xss) simp_all

lemma fold_flat2:
  "fold W (concat (map (\<lambda>i. map (g i) (r i)) R)) = fold (\<lambda>i. fold (\<lambda>j. W (g i j)) (r i)) R"
  by (simp add: fold_concat fold_map comp_def)

lemma fold_flat3:
  "fold W (concat (map (\<lambda>i. concat (map (\<lambda>j. map (g i j) (q i j)) (r i))) R))
     = fold (\<lambda>i. fold (\<lambda>j. fold (\<lambda>k. W (g i j k)) (q i j)) (r i)) R"
  by (simp add: fold_concat fold_map comp_def)

subsection \<open>The writes of the set-cover builder\<close>

lemma fold_add_variable_fresh:
  "distinct (map fst es) \<Longrightarrow> fst ` set (linear m) \<inter> fst ` set es = {} \<Longrightarrow>
   fold (\<lambda>(v, b). add_variable v b) es m = m\<lparr>linear := linear m @ es\<rparr>"
proof (induction es arbitrary: m)
  case Nil
  show ?case by simp
next
  case (Cons e es)
  obtain v b where e: "e = (v, b)" by (cases e)
  from Cons.prems have fresh: "v \<notin> fst ` set (linear m)" by (auto simp: e)
  then have none: "map_of (linear m) v = None" by (simp add: map_of_eq_None_iff)
  have step: "add_variable v b m = m\<lparr>linear := linear m @ [(v, b)]\<rparr>"
    by (simp add: add_variable_def none update_fresh [OF fresh])
  have "fold (\<lambda>(v, b). add_variable v b) es (m\<lparr>linear := linear m @ [(v, b)]\<rparr>)
      = (m\<lparr>linear := linear m @ [(v, b)]\<rparr>)\<lparr>linear := linear (m\<lparr>linear := linear m @ [(v, b)]\<rparr>) @ es\<rparr>"
    using Cons.prems by (intro Cons.IH) (auto simp: e)
  then show ?case
    by (simp add: e step)
qed

lemma fold_quadratic_setitem:
  "fold (\<lambda>(k, v). quadratic_setitem k v) es m
     = m\<lparr>quadratic := fold (\<lambda>(k, v). AList.update k v) es (quadratic m)\<rparr>"
  by (induction es arbitrary: m) (auto simp: quadratic_setitem_def)

lemma distinct_x_linear_keys: "distinct (map fst (x_linear_terms I N A B))"
  by (simp add: x_linear_terms_def distinct_map comp_def inj_on_def)

lemma distinct_y_linear_keys: "distinct (map fst (y_linear_terms N n A))"
  unfolding y_linear_terms_def map_concat map_map
  by (rule distinct_concat_map) (auto simp: distinct_map comp_def inj_on_def)

lemma distinct_xx_keys: "distinct (map fst (xx_terms I N A))"
  unfolding xx_terms_def map_concat map_map
  by (rule distinct_concat_map) (auto simp: distinct_map comp_def inj_on_def)

lemma distinct_yy_keys: "distinct (map fst (yy_terms N n A))"
  unfolding yy_terms_def map_concat map_map comp_def
  by (rule distinct_concat_map, simp, rule distinct_concat_map)
     (auto simp: distinct_map comp_def inj_on_def)

lemma distinct_xy_keys: "distinct (map fst (xy_terms I N n A))"
  unfolding xy_terms_def map_concat map_map comp_def
  by (rule distinct_concat_map, simp, rule distinct_concat_map)
     (auto simp: distinct_map comp_def inj_on_def)

lemma x_linear_keys: "k \<in> fst ` set (x_linear_terms I N A B) \<Longrightarrow> \<exists>i. k = x_label i"
  by (auto simp: x_linear_terms_def)

lemma y_linear_keys: "k \<in> fst ` set (y_linear_terms N n A) \<Longrightarrow> \<exists>a m. k = y_label a m"
  by (auto simp: y_linear_terms_def)

lemma xx_keys:
  "k \<in> fst ` set (xx_terms I N A) \<Longrightarrow> \<exists>i j. 1 \<le> i \<and> i < j \<and> j \<le> N \<and> k = (x_label i, x_label j)"
  by (auto simp: xx_terms_def)

lemma yy_keys:
  "k \<in> fst ` set (yy_terms N n A) \<Longrightarrow>
     \<exists>a m n'. 1 \<le> a \<and> a \<le> n \<and> 1 \<le> m \<and> m < n' \<and> n' \<le> N \<and> k = (y_label a m, y_label a n')"
  by (auto simp: yy_terms_def)

lemma xy_keys:
  "k \<in> fst ` set (xy_terms I N n A) \<Longrightarrow>
     \<exists>i a m. 1 \<le> i \<and> i \<le> N \<and> 1 \<le> a \<and> a \<le> n \<and> 1 \<le> m \<and> m \<le> N \<and> k = (x_label i, y_label a m)"
  by (auto simp: xy_terms_def)

subsection \<open>Expansion of the Hamiltonian\<close>

lemma square_sum:
  fixes f :: "nat \<Rightarrow> int"
  shows "(\<Sum>i = 1..N. f i)\<^sup>2 = (\<Sum>i = 1..N. (f i)\<^sup>2) + 2 * (\<Sum>i = 1..N. \<Sum>j = i + 1..N. f i * f j)"
proof (induction N)
  case 0
  show ?case by simp
next
  case (Suc N)
  have inner: "(\<Sum>i = 1..N. \<Sum>j = i + 1..Suc N. f i * f j)
             = (\<Sum>i = 1..N. \<Sum>j = i + 1..N. f i * f j) + (\<Sum>i = 1..N. f i) * f (Suc N)"
  proof -
    have "(\<Sum>j = i + 1..Suc N. f i * f j) = (\<Sum>j = i + 1..N. f i * f j) + f i * f (Suc N)"
      if "i \<in> {1..N}" for i
      using that by simp
    then have "(\<Sum>i = 1..N. \<Sum>j = i + 1..Suc N. f i * f j)
             = (\<Sum>i = 1..N. (\<Sum>j = i + 1..N. f i * f j) + f i * f (Suc N))"
      by (intro sum.cong) simp_all
    then show ?thesis
      by (simp add: sum.distrib sum_distrib_right)
  qed
  have "(\<Sum>i = 1..Suc N. \<Sum>j = i + 1..Suc N. f i * f j)
      = (\<Sum>i = 1..N. \<Sum>j = i + 1..Suc N. f i * f j)"
    by simp
  with inner have outer: "(\<Sum>i = 1..Suc N. \<Sum>j = i + 1..Suc N. f i * f j)
      = (\<Sum>i = 1..N. \<Sum>j = i + 1..N. f i * f j) + (\<Sum>i = 1..N. f i) * f (Suc N)"
    by simp
  have "(\<Sum>i = 1..Suc N. f i)\<^sup>2 = (\<Sum>i = 1..N. f i)\<^sup>2 + 2 * (\<Sum>i = 1..N. f i) * f (Suc N) + (f (Suc N))\<^sup>2"
    by (simp add: power2_sum)
  also have "\<dots> = (\<Sum>i = 1..Suc N. (f i)\<^sup>2) + 2 * (\<Sum>i = 1..Suc N. \<Sum>j = i + 1..Suc N. f i * f j)"
    unfolding outer Suc.IH by (simp add: algebra_simps)
  finally show ?case .
qed

lemma binary_square: "(b::int) = 0 \<or> b = 1 \<Longrightarrow> b\<^sup>2 = b"
  by auto

lemma penalty_expansion:
  fixes x y c :: "nat \<Rightarrow> int" and A :: int
  assumes y: "\<And>m. y m = 0 \<or> y m = 1" and x: "\<And>i. x i = 0 \<or> x i = 1"
    and c: "\<And>i. c i = 0 \<or> c i = 1"
  shows "A * (1 - (\<Sum>m = 1..N. y m))\<^sup>2 + A * ((\<Sum>m = 1..N. int m * y m) - (\<Sum>i = 1..N. c i * x i))\<^sup>2
       = A + (\<Sum>m = 1..N. A * ((int m)\<^sup>2 - 1) * y m)
           + (\<Sum>i = 1..N. A * c i * x i)
           + (\<Sum>i = 1..N. \<Sum>j = i + 1..N. 2 * A * (c i * c j) * x i * x j)
           + (\<Sum>m = 1..N. \<Sum>n = m + 1..N. 2 * A * (1 + int m * int n) * y m * y n)
           + (\<Sum>i = 1..N. \<Sum>m = 1..N. - 2 * A * int m * c i * x i * y m)"
proof -
  define S1 where "S1 = (\<Sum>m = 1..N. y m)"
  define S2 where "S2 = (\<Sum>m = 1..N. \<Sum>n = m + 1..N. y m * y n)"
  define T1 where "T1 = (\<Sum>m = 1..N. (int m)\<^sup>2 * y m)"
  define T2 where "T2 = (\<Sum>m = 1..N. \<Sum>n = m + 1..N. (int m * y m) * (int n * y n))"
  define T3 where "T3 = (\<Sum>m = 1..N. int m * y m)"
  define X1 where "X1 = (\<Sum>i = 1..N. c i * x i)"
  define X2 where "X2 = (\<Sum>i = 1..N. \<Sum>j = i + 1..N. (c i * x i) * (c j * x j))"
  define CR where "CR = (\<Sum>i = 1..N. \<Sum>m = 1..N. (int m * y m) * (c i * x i))"
  have sq1: "S1\<^sup>2 = S1 + 2 * S2"
    unfolding S1_def S2_def square_sum by (simp add: binary_square [OF y])
  have sq2: "T3\<^sup>2 = T1 + 2 * T2"
    unfolding T3_def T1_def T2_def square_sum by (simp add: power_mult_distrib binary_square [OF y])
  have sq3: "X1\<^sup>2 = X1 + 2 * X2"
    unfolding X1_def X2_def square_sum
    by (simp add: power_mult_distrib binary_square [OF x] binary_square [OF c])
  have cr: "T3 * X1 = CR"
    unfolding T3_def X1_def CR_def by (subst sum.swap) (simp add: sum_product)
  have lhs: "A * (1 - S1)\<^sup>2 + A * (T3 - X1)\<^sup>2
           = A + A * T1 - A * S1 + A * X1 + 2 * A * X2 + (2 * A * S2 + 2 * A * T2) - 2 * A * CR"
    unfolding power2_diff sq1 sq2 sq3 by (simp add: algebra_simps cr [symmetric])
  have r1: "(\<Sum>m = 1..N. A * ((int m)\<^sup>2 - 1) * y m) = A * T1 - A * S1"
    unfolding T1_def S1_def by (simp add: sum_distrib_left sum_subtractf algebra_simps)
  have r2: "(\<Sum>i = 1..N. A * c i * x i) = A * X1"
    unfolding X1_def by (simp add: sum_distrib_left algebra_simps)
  have r3: "(\<Sum>i = 1..N. \<Sum>j = i + 1..N. 2 * A * (c i * c j) * x i * x j) = 2 * A * X2"
    unfolding X2_def by (simp add: sum_distrib_left algebra_simps)
  have r4: "(\<Sum>m = 1..N. \<Sum>n = m + 1..N. 2 * A * (1 + int m * int n) * y m * y n) = 2 * A * S2 + 2 * A * T2"
    unfolding S2_def T2_def by (simp add: sum_distrib_left sum.distrib algebra_simps)
  have r5: "(\<Sum>i = 1..N. \<Sum>m = 1..N. - 2 * A * int m * c i * x i * y m) = - 2 * A * CR"
    unfolding CR_def by (simp add: sum_distrib_left algebra_simps)
  show ?thesis
    unfolding r1 r2 r3 r4 r5 using lhs by (simp add: S1_def T3_def X1_def)
qed

lemma build_setcover_bqm_closed:
  "build_setcover_bqm U V =
     (\<lparr>linear = x_linear_terms (indicators U V) (length V) 2 1 @ y_linear_terms (length V) (length U) 2,
       quadratic = xx_terms (indicators U V) (length V) 2 @ yy_terms (length V) (length U) 2
                   @ xy_terms (indicators U V) (length V) (length U) 2,
       offset = 0\<rparr>,
      map (\<lambda>i. x_label (i + 1)) [0..<length V])"
proof -
  define I where "I = indicators U V"
  define N where "N = length V"
  define n where "n = length U"
  have L1: "fold (\<lambda>i. add_variable (x_label (i + 1)) (2 * sum_list (I ! i) + 1)) [0..<N]
          = fold (\<lambda>(v, b). add_variable v b) (x_linear_terms I N 2 1)"
    by (simp add: x_linear_terms_def fold_map comp_def)
  have L2: "fold (\<lambda>a. fold (\<lambda>m. add_variable (y_label a m) (2 * ((int m)\<^sup>2 - 1))) [1..<N + 1]) [1..<n + 1]
          = fold (\<lambda>(v, b). add_variable v b) (y_linear_terms N n 2)"
    unfolding y_linear_terms_def fold_flat2 by simp
  have Q1: "fold (\<lambda>i. fold (\<lambda>j. quadratic_setitem (x_label i, x_label j)
                (2 * 2 * dot (I ! (i - 1)) (I ! (j - 1)))) [i + 1..<N + 1]) [1..<N + 1]
          = fold (\<lambda>(k, v). quadratic_setitem k v) (xx_terms I N 2)"
    unfolding xx_terms_def fold_flat2 by simp
  have Q2: "fold (\<lambda>m. fold (\<lambda>n'. fold (\<lambda>a. quadratic_setitem (y_label a m, y_label a n')
                (2 * 2 * (1 + int m * int n'))) [1..<n + 1]) [m + 1..<N + 1]) [1..<N + 1]
          = fold (\<lambda>(k, v). quadratic_setitem k v) (yy_terms N n 2)"
    unfolding yy_terms_def fold_flat3 by simp
  have Q3: "fold (\<lambda>i. fold (\<lambda>m. fold (\<lambda>a. quadratic_setitem (x_label i, y_label a m)
                (- 2 * 2 * int m * (I ! (i - 1) ! (a - 1)))) [1..<n + 1]) [1..<N + 1]) [1..<N + 1]
          = fold (\<lambda>(k, v). quadratic_setitem k v) (xy_terms I N n 2)"
    unfolding xy_terms_def fold_flat3 by simp
  have lin: "fold (\<lambda>(v, b). add_variable v b) (x_linear_terms I N 2 1 @ y_linear_terms N n 2) empty_bqm
           = empty_bqm\<lparr>linear := linear empty_bqm @ (x_linear_terms I N 2 1 @ y_linear_terms N n 2)\<rparr>"
    using distinct_x_linear_keys [of I N 2 1] distinct_y_linear_keys [of N n 2]
    by (intro fold_add_variable_fresh)
       (auto simp: empty_bqm_def dest!: x_linear_keys y_linear_keys)
  have quad: "fold (\<lambda>(k, v). AList.update k v) (xx_terms I N 2 @ yy_terms N n 2 @ xy_terms I N n 2) []
            = [] @ (xx_terms I N 2 @ yy_terms N n 2 @ xy_terms I N n 2)"
    using distinct_xx_keys [of I N 2] distinct_yy_keys [of N n 2] distinct_xy_keys [of I N n 2]
    by (intro fold_update_fresh)
       (auto dest!: xx_keys yy_keys xy_keys)
  show ?thesis
    unfolding build_setcover_bqm_def Let_def I_def [symmetric] N_def [symmetric] n_def [symmetric]
      L1 L2 Q1 Q2 Q3
    using lin quad
    by (simp add: fold_quadratic_setitem empty_bqm_def)
qed

subsection \<open>Sums over the loops\<close>

lemma sum_list_concat_map:
  "sum_list (map f (concat (map g xs))) = (\<Sum>x\<leftarrow>xs. sum_list (map f (g x)))"
  by (induction xs) simp_all

lemma sum_list_upt_Suc: "(\<Sum>x\<leftarrow>[a..<b + 1]. f x) = (\<Sum>x = a..b. f x)"
  by (simp only: interv_sum_list_conv_sum_set_nat set_upt Suc_eq_plus1 [symmetric]
        atLeastLessThanSuc_atLeastAtMost)

lemma swap_inner_lt:
  fixes g :: "nat \<Rightarrow> nat \<Rightarrow> nat \<Rightarrow> int"
  shows "(\<Sum>i = 1..N. \<Sum>j = i + 1..N. \<Sum>a = 1..n. g i j a) = (\<Sum>a = 1..n. \<Sum>i = 1..N. \<Sum>j = i + 1..N. g i j a)"
proof -
  have "(\<Sum>i = 1..N. \<Sum>j = i + 1..N. \<Sum>a = 1..n. g i j a) = (\<Sum>i = 1..N. \<Sum>a = 1..n. \<Sum>j = i + 1..N. g i j a)"
    by (intro sum.cong refl sum.swap)
  also have "\<dots> = (\<Sum>a = 1..n. \<Sum>i = 1..N. \<Sum>j = i + 1..N. g i j a)"
    by (rule sum.swap)
  finally show ?thesis .
qed

lemma swap_inner_all:
  fixes g :: "nat \<Rightarrow> nat \<Rightarrow> nat \<Rightarrow> int"
  shows "(\<Sum>i = 1..N. \<Sum>m = 1..N. \<Sum>a = 1..n. g i m a) = (\<Sum>a = 1..n. \<Sum>i = 1..N. \<Sum>m = 1..N. g i m a)"
proof -
  have "(\<Sum>i = 1..N. \<Sum>m = 1..N. \<Sum>a = 1..n. g i m a) = (\<Sum>i = 1..N. \<Sum>a = 1..n. \<Sum>m = 1..N. g i m a)"
    by (intro sum.cong refl sum.swap)
  also have "\<dots> = (\<Sum>a = 1..n. \<Sum>i = 1..N. \<Sum>m = 1..N. g i m a)"
    by (rule sum.swap)
  finally show ?thesis .
qed

lemma ind_binary: "ind U V a i = 0 \<or> ind U V a i = 1"
  by (simp add: ind_def)

lemma indicators_nth:
  "1 \<le> i \<Longrightarrow> i \<le> length V \<Longrightarrow> 1 \<le> a \<Longrightarrow> a \<le> length U \<Longrightarrow>
   indicators U V ! (i - 1) ! (a - 1) = ind U V a i"
  by (simp add: indicators_def ind_def)

lemma indicators_row_sum:
  assumes "i < length V"
  shows "sum_list (indicators U V ! i) = (\<Sum>a = 1..length U. ind U V a (i + 1))"
proof -
  have "sum_list (indicators U V ! i) = (\<Sum>a = 0..<length U. ind U V (a + 1) (i + 1))"
    using assms by (simp add: indicators_def ind_def interv_sum_list_conv_sum_set_nat)
  also have "\<dots> = (\<Sum>a = 1..length U. ind U V a (i + 1))"
    by (rule sum.reindex_bij_witness [of _ "\<lambda>a. a - 1" "\<lambda>a. a + 1"]) auto
  finally show ?thesis .
qed

lemma indicators_dot:
  assumes "1 \<le> i" "i \<le> length V" "1 \<le> j" "j \<le> length V"
  shows "dot (indicators U V ! (i - 1)) (indicators U V ! (j - 1))
       = (\<Sum>a = 1..length U. ind U V a i * ind U V a j)"
proof -
  have rows: "indicators U V ! (i - 1) = map (\<lambda>a. ind U V (a + 1) i) [0..<length U]"
    "indicators U V ! (j - 1) = map (\<lambda>a. ind U V (a + 1) j) [0..<length U]"
    using assms by (simp_all add: indicators_def ind_def)
  have "dot (indicators U V ! (i - 1)) (indicators U V ! (j - 1))
      = (\<Sum>a\<leftarrow>[0..<length U]. ind U V (a + 1) i * ind U V (a + 1) j)"
    unfolding rows dot_def by (simp add: zip_map_map zip_same_conv_map comp_def) 
  also have "\<dots> = (\<Sum>a = 0..<length U. ind U V (a + 1) i * ind U V (a + 1) j)"
    by (simp add: interv_sum_list_conv_sum_set_nat)
  also have "\<dots> = (\<Sum>a = 1..length U. ind U V a i * ind U V a j)"
    by (rule sum.reindex_bij_witness [of _ "\<lambda>a. a - 1" "\<lambda>a. a + 1"]) auto
  finally show ?thesis .
qed

subsection \<open>The set-cover instance\<close>

lemma example_model:
  "build_setcover_bqm example_U example_V =
    (\<lparr>linear =
       [(''x_1'', 3), (''x_2'', 5), (''y_(1, 1)'', 0), (''y_(1, 2)'', 6),
        (''y_(2, 1)'', 0), (''y_(2, 2)'', 6)],
      quadratic =
       [((''x_1'', ''x_2''), 4), ((''y_(1, 1)'', ''y_(1, 2)''), 12),
        ((''y_(2, 1)'', ''y_(2, 2)''), 12), ((''x_1'', ''y_(1, 1)''), - 4),
        ((''x_1'', ''y_(2, 1)''), 0), ((''x_1'', ''y_(1, 2)''), - 8),
        ((''x_1'', ''y_(2, 2)''), 0), ((''x_2'', ''y_(1, 1)''), - 4),
        ((''x_2'', ''y_(2, 1)''), - 4), ((''x_2'', ''y_(1, 2)''), - 8),
        ((''x_2'', ''y_(2, 2)''), - 8)],
      offset = 0\<rparr>,
     [''x_1'', ''x_2''])"
  by code_simp

lemma example_energy:
  "energy (fst (build_setcover_bqm example_U example_V)) s =
     3 * s ''x_1'' + 5 * s ''x_2'' + 6 * s ''y_(1, 2)'' + 6 * s ''y_(2, 2)''
     + 4 * s ''x_1'' * s ''x_2''
     + 12 * s ''y_(1, 1)'' * s ''y_(1, 2)'' + 12 * s ''y_(2, 1)'' * s ''y_(2, 2)''
     - 4 * s ''x_1'' * s ''y_(1, 1)'' - 8 * s ''x_1'' * s ''y_(1, 2)''
     - 4 * s ''x_2'' * s ''y_(1, 1)'' - 4 * s ''x_2'' * s ''y_(2, 1)''
     - 8 * s ''x_2'' * s ''y_(1, 2)'' - 8 * s ''x_2'' * s ''y_(2, 2)''"
  unfolding example_model by (simp add: energy_def)

lemma example_best_energy: "energy (fst (build_setcover_bqm example_U example_V)) example_best = - 3"
  unfolding example_energy by (simp add: example_best_def)

subsection \<open>Labels of the combined model\<close>

lemma z_label_eq_iff [simp]: "z_label k s = z_label k' s' \<longleftrightarrow> k = k' \<and> s = s'"
proof -
  have "str k @ CHR '','' # str s = str k' @ CHR '','' # str s' \<longleftrightarrow> str k = str k' \<and> str s = str s'"
    by (rule append_Cons_eq_iff) simp_all
  then show ?thesis
    by (simp add: z_label_def)
qed

lemma w_label_eq_iff [simp]: "w_label i = w_label j \<longleftrightarrow> i = j"
  by (simp add: w_label_def)

lemma label_kinds [simp]:
  "z_label k s \<noteq> w_label j" "w_label j \<noteq> z_label k s"
  "z_label k s \<noteq> x_label i" "x_label i \<noteq> z_label k s"
  "z_label k s \<noteq> y_label a m" "y_label a m \<noteq> z_label k s"
  "w_label j \<noteq> x_label i" "x_label i \<noteq> w_label j"
  "w_label j \<noteq> y_label a m" "y_label a m \<noteq> w_label j"
  by (simp_all add: z_label_def w_label_def x_label_def y_label_def)

subsection \<open>Folds of dictionary updates\<close>

lemma map_add_update_left:
  "(m(k \<mapsto> v)) ++ m2 = m ++ (map_of [(k, v)] ++ m2)"
  by (rule ext) (simp add: map_add_def split: option.splits)

lemma map_of_fold_update:
  "map_of (fold (\<lambda>(k, v). AList.update k v) es al) = map_of al ++ map_of (rev es)"
proof (induction es arbitrary: al)
  case Nil
  show ?case by simp
next
  case (Cons e es)
  obtain k v where e: "e = (k, v)" by (cases e)
  have "map_of (fold (\<lambda>(k, v). AList.update k v) (e # es) al)
      = map_of (fold (\<lambda>(k, v). AList.update k v) es (AList.update k v al))"
    by (simp add: e)
  also have "\<dots> = map_of (AList.update k v al) ++ map_of (rev es)"
    by (rule Cons.IH)
  also have "\<dots> = (map_of al)(k \<mapsto> v) ++ map_of (rev es)"
    by (simp only: update_conv')
  also have "\<dots> = map_of al ++ (map_of [(k, v)] ++ map_of (rev es))"
    by (rule map_add_update_left)
  also have "map_of [(k, v)] ++ map_of (rev es) = map_of (rev (e # es))"
    by (simp only: rev.simps map_of_append e)
  finally show ?case .
qed

lemma keys_fold_update:
  "fst ` set (fold (\<lambda>(k, v). AList.update k v) es al) = fst ` set al \<union> fst ` set es"
proof -
  have "dom (map_of (fold (\<lambda>(k, v). AList.update k v) es al)) = dom (map_of al) \<union> dom (map_of (rev es))"
    by (simp only: map_of_fold_update dom_map_add Un_commute)
  then show ?thesis
    by (simp only: dom_map_of_conv_image_fst set_rev)
qed

lemma distinct_fold_update:
  "distinct (map fst al) \<Longrightarrow> distinct (map fst (fold (\<lambda>(k, v). AList.update k v) es al))"
  by (induction es arbitrary: al) (auto simp: distinct_update)


lemma map_of_absent: "k \<notin> fst ` set xs \<Longrightarrow> map_of xs k = None"
  by (simp add: map_of_eq_None_iff)


lemma lookup_fold_update_other:
  assumes "k \<notin> fst ` set es"
  shows "map_of (fold (\<lambda>(k, v). AList.update k v) es al) k = map_of al k"
proof -
  have "map_of (rev es) k = None"
    using assms by (intro map_of_absent) simp
  then show ?thesis
    by (simp add: map_of_fold_update map_add_def)
qed

lemma fold_preserves:
  "(\<And>x s. x \<in> set xs \<Longrightarrow> g (f x s) = g s) \<Longrightarrow> g (fold f xs s) = g s"
  by (induction xs arbitrary: s) simp_all

lemma fold_flat4:
  "fold W (concat (map (\<lambda>i. concat (map (\<lambda>j. concat (map (\<lambda>k. map (g i j k) (p i j k)) (q i j))) (r i))) R))
     = fold (\<lambda>i. fold (\<lambda>j. fold (\<lambda>k. fold (\<lambda>l. W (g i j k l)) (p i j k)) (q i j)) (r i)) R"
  by (simp add: fold_concat fold_map comp_def)

lemma fold_set_linear:
  "fold (\<lambda>(v, b). set_linear v b) es m
     = m\<lparr>linear_biases := fold (\<lambda>(k, v). AList.update k v) es (linear_biases m)\<rparr>"
  by (induction es arbitrary: m) (auto simp: set_linear_def)

lemma fold_set_quadratic:
  "fold (\<lambda>((u, v), d). set_quadratic u v d) es m
     = m\<lparr>quadratic_biases := fold (\<lambda>(k, v). AList.update k v) es (quadratic_biases m)\<rparr>"
  by (induction es arbitrary: m) (auto simp: set_quadratic_def)

subsection \<open>The writes of the combined builder\<close>

lemma fold_dqm_add_variable:
  "fold (\<lambda>(l, n). dqm_add_variable n l) es m
     = m\<lparr>variables := variables m @ es,
         linear_biases := linear_biases m @ map (\<lambda>(l, n). (l, replicate n 0)) es\<rparr>"
  by (induction es arbitrary: m) (auto simp: dqm_add_variable_def)

lemma knapsack_variables_closed:
  "knapsack_variables x_size nS bound nw m
     = m\<lparr>variables := variables m @ z_variable_terms x_size nS bound @ w_variable_terms nw,
         linear_biases := linear_biases m
            @ map (\<lambda>(l, n). (l, replicate n 0)) (z_variable_terms x_size nS bound @ w_variable_terms nw)\<rparr>"
proof -
  have Z: "fold (\<lambda>k. fold (\<lambda>s. dqm_add_variable (bound ! k) (z_label k s)) [0..<nS]) [0..<x_size]
         = fold (\<lambda>(l, n). dqm_add_variable n l) (z_variable_terms x_size nS bound)"
    unfolding z_variable_terms_def fold_flat2 by simp
  have W: "fold (\<lambda>k. dqm_add_variable 2 (w_label k)) [0..<nw]
         = fold (\<lambda>(l, n). dqm_add_variable n l) (w_variable_terms nw)"
    by (simp add: w_variable_terms_def fold_map comp_def)
  show ?thesis
    unfolding knapsack_variables_def Let_def Z W
    by (simp add: fold_dqm_add_variable)
qed

lemma knapsack_terms_closed:
  "knapsack_terms lagrange C values weights bound nS w m
     = m\<lparr>linear_biases := fold (\<lambda>(k, v). AList.update k v)
            (z_linear_terms lagrange C values weights bound nS @ w_linear_terms lagrange w)
            (linear_biases m),
         quadratic_biases := fold (\<lambda>(k, v). AList.update k v)
            (zz_terms lagrange weights bound nS (length values) @ ww_terms lagrange w
               @ zw_terms lagrange weights bound nS (length values) w)
            (quadratic_biases m)\<rparr>"
proof -
  have L1: "fold (\<lambda>k. fold (\<lambda>s. set_linear (z_label k s)
                (map (\<lambda>p. lagrange * of_int ((weights ! k ! s)\<^sup>2) * of_nat (p\<^sup>2)
                            + of_int (C - values ! k) * of_nat p) [0..<bound ! k]))
              [0..<nS]) [0..<length values]
         = fold (\<lambda>(v, b). set_linear v b) (z_linear_terms lagrange C values weights bound nS)"
    unfolding z_linear_terms_def fold_flat2 by simp
  have L2: "fold (\<lambda>k. set_linear (w_label k)
                (map (\<lambda>c. lagrange * c * of_int ((w ! k)\<^sup>2)) [0, 1])) [0..<length w]
         = fold (\<lambda>(v, b). set_linear v b) (w_linear_terms lagrange w)"
    by (simp add: w_linear_terms_def fold_map comp_def)
  have Q1: "fold (\<lambda>i. fold (\<lambda>j. fold (\<lambda>s1. fold (\<lambda>s2.
                set_quadratic (z_label i s1) (z_label j s2)
                  (concat (map (\<lambda>piece1. map (\<lambda>piece2. ((piece1, piece2),
                      (2 * lagrange * of_int (weights ! i ! s1) * of_int (weights ! j ! s2))
                        * of_nat piece1 * of_nat piece2))
                    [0..<bound ! j]) [0..<bound ! i])))
              [0..<nS]) [0..<nS]) [i + 1..<length values]) [0..<length values]
         = fold (\<lambda>((u, v), d). set_quadratic u v d) (zz_terms lagrange weights bound nS (length values))"
    unfolding zz_terms_def fold_flat4 by simp
  have Q2: "fold (\<lambda>i. fold (\<lambda>j. set_quadratic (w_label i) (w_label j)
                [((1, 1), 2 * lagrange * of_int (w ! i) * of_int (w ! j))])
              [i + 1..<length w]) [0..<length w]
         = fold (\<lambda>((u, v), d). set_quadratic u v d) (ww_terms lagrange w)"
    unfolding ww_terms_def fold_flat2 by simp
  have Q3: "fold (\<lambda>i. fold (\<lambda>s. fold (\<lambda>j. set_quadratic (z_label i s) (w_label j)
                (map (\<lambda>piece1. ((piece1, 1),
                    - 2 * lagrange * of_int (weights ! i ! s) * of_int (w ! j) * of_nat piece1))
                  [0..<bound ! i]))
              [0..<length w]) [0..<nS]) [0..<length values]
         = fold (\<lambda>((u, v), d). set_quadratic u v d) (zw_terms lagrange weights bound nS (length values) w)"
    unfolding zw_terms_def fold_flat3 by simp
  show ?thesis
    unfolding knapsack_terms_def Let_def L1 L2 Q1 Q2 Q3
    by (simp add: fold_set_linear fold_set_quadratic)
qed

lemma h3_terms_closed:
  "h3_terms C x_size bound nS nw m
     = m\<lparr>quadratic_biases := fold (\<lambda>(k, v). AList.update k v)
            (h3_writes C x_size bound nS nw) (quadratic_biases m)\<rparr>"
proof -
  have "fold (\<lambda>i. fold (\<lambda>s. fold (\<lambda>j. set_quadratic (z_label i s) (x_label (s + 1))
              (map (\<lambda>piece1. ((piece1, 1), of_int (- C * int piece1))) [0..<bound ! i]))
            [0..<nw]) [1..<nS]) [0..<x_size]
       = fold (\<lambda>((u, v), d). set_quadratic u v d) (h3_writes C x_size bound nS nw)"
    unfolding h3_writes_def fold_flat3 by simp
  then show ?thesis
    unfolding h3_terms_def by (simp add: fold_set_quadratic)
qed

subsection \<open>Fields that a loop leaves unchanged\<close>

lemma add_set_linear_quadratic [simp]:
  "quadratic_biases (set_linear l b (dqm_add_variable n l m)) = quadratic_biases m"
  by (simp add: set_linear_def dqm_add_variable_def)

lemma add_set_linear_other:
  "k \<noteq> l \<Longrightarrow> map_of (linear_biases (set_linear l b (dqm_add_variable n l m))) k
               = map_of (linear_biases m) k"
  by (simp add: set_linear_def dqm_add_variable_def update_conv' map_add_def split: option.splits)

lemma add_set_variables_other:
  "k \<noteq> l \<Longrightarrow> map_of (variables (set_linear l b (dqm_add_variable n l m))) k
               = map_of (variables m) k"
  by (simp add: set_linear_def dqm_add_variable_def map_add_def split: option.splits)

lemma set_quadratic_fields [simp]:
  "linear_biases (set_quadratic u v d m) = linear_biases m"
  "variables (set_quadratic u v d m) = variables m"
  by (simp_all add: set_quadratic_def)

lemma fold_add_set_quadratic:
  "quadratic_biases (fold (\<lambda>i m. set_linear (lab i) (b i) (dqm_add_variable n (lab i) m)) xs m')
     = quadratic_biases m'"
  by (rule fold_preserves) simp

lemma fold2_add_set_quadratic:
  "quadratic_biases (fold (\<lambda>a. fold (\<lambda>m d. set_linear (lab a m) (b a m)
       (dqm_add_variable n (lab a m) d)) (ms a)) as m') = quadratic_biases m'"
  by (rule fold_preserves, rule fold_preserves) simp

lemma setcover_terms_quadratic:
  "quadratic_biases (setcover_terms I nS nU m)
     = fold (\<lambda>(k, v). AList.update k v)
         (dqm_xx_terms I nS @ dqm_yy_terms nS nU @ dqm_xy_terms I nS nU) (quadratic_biases m)"
proof -
  have Q1: "fold (\<lambda>i. fold (\<lambda>j. set_quadratic (x_label i) (x_label j)
                [((1, 1), of_int (2 * 2000 * dot (I ! (i - 1)) (I ! (j - 1))))])
              [i + 1..<nS + 1]) [1..<nS + 1]
          = fold (\<lambda>((u, v), d). set_quadratic u v d) (dqm_xx_terms I nS)"
    unfolding dqm_xx_terms_def fold_flat2 by simp
  have Q2: "fold (\<lambda>m. fold (\<lambda>n. fold (\<lambda>a. set_quadratic (y_label a m) (y_label a n)
                [((1, 1), of_int (2 * 2000 * (1 + int m * int n)))])
              [1..<nU + 1]) [m + 1..<nS + 1]) [1..<nS + 1]
          = fold (\<lambda>((u, v), d). set_quadratic u v d) (dqm_yy_terms nS nU)"
    unfolding dqm_yy_terms_def fold_flat3 by simp
  have Q3: "fold (\<lambda>i. fold (\<lambda>m. fold (\<lambda>a. set_quadratic (x_label i) (y_label a m)
                [((1, 1), of_int (- 2 * 2000 * int m * (I ! (i - 1) ! (a - 1))))])
              [1..<nU + 1]) [1..<nS + 1]) [1..<nS + 1]
          = fold (\<lambda>((u, v), d). set_quadratic u v d) (dqm_xy_terms I nS nU)"
    unfolding dqm_xy_terms_def fold_flat3 by simp
  show ?thesis
    unfolding setcover_terms_def Let_def Q1 Q2 Q3
    by (simp add: fold_set_quadratic fold_add_set_quadratic fold2_add_set_quadratic)
qed

lemma fold2_set_quadratic_fields:
  "linear_biases (fold (\<lambda>i. fold (\<lambda>j. set_quadratic (u i j) (v i j) (d i j)) (r i)) R m)
     = linear_biases m"
  "variables (fold (\<lambda>i. fold (\<lambda>j. set_quadratic (u i j) (v i j) (d i j)) (r i)) R m)
     = variables m"
  by (rule fold_preserves, rule fold_preserves, simp)+

lemma fold3_set_quadratic_fields:
  "linear_biases (fold (\<lambda>i. fold (\<lambda>j. fold (\<lambda>k. set_quadratic (u i j k) (v i j k) (d i j k))
       (q i j)) (r i)) R m) = linear_biases m"
  "variables (fold (\<lambda>i. fold (\<lambda>j. fold (\<lambda>k. set_quadratic (u i j k) (v i j k) (d i j k))
       (q i j)) (r i)) R m) = variables m"
  by (rule fold_preserves, rule fold_preserves, rule fold_preserves, simp)+

lemma setcover_terms_linear_other:
  assumes "\<And>i. k \<noteq> x_label i" and "\<And>a m. k \<noteq> y_label a m"
  shows "map_of (linear_biases (setcover_terms I nS nU m)) k = map_of (linear_biases m) k"
proof -
  have X: "map_of (linear_biases (fold (\<lambda>i m. set_linear (x_label (i + 1)) (b i)
              (dqm_add_variable 2 (x_label (i + 1)) m)) xs m')) k = map_of (linear_biases m') k"
    for b xs m'
    by (rule fold_preserves) (simp add: add_set_linear_other assms)
  have Y: "map_of (linear_biases (fold (\<lambda>a. fold (\<lambda>m d. set_linear (y_label a m) (b m)
              (dqm_add_variable 2 (y_label a m) d)) ms) as m')) k = map_of (linear_biases m') k"
    for b ms as m'
    by (rule fold_preserves, rule fold_preserves) (simp add: add_set_linear_other assms)
  show ?thesis
    unfolding setcover_terms_def Let_def
    by (simp only: fold2_set_quadratic_fields fold3_set_quadratic_fields X Y)
qed

lemma setcover_terms_variables_other:
  assumes "\<And>i. k \<noteq> x_label i" and "\<And>a m. k \<noteq> y_label a m"
  shows "map_of (variables (setcover_terms I nS nU m)) k = map_of (variables m) k"
proof -
  have X: "map_of (variables (fold (\<lambda>i m. set_linear (x_label (i + 1)) (b i)
              (dqm_add_variable 2 (x_label (i + 1)) m)) xs m')) k = map_of (variables m') k"
    for b xs m'
    by (rule fold_preserves) (simp add: add_set_variables_other assms)
  have Y: "map_of (variables (fold (\<lambda>a. fold (\<lambda>m d. set_linear (y_label a m) (b m)
              (dqm_add_variable 2 (y_label a m) d)) ms) as m')) k = map_of (variables m') k"
    for b ms as m'
    by (rule fold_preserves, rule fold_preserves) (simp add: add_set_variables_other assms)
  show ?thesis
    unfolding setcover_terms_def Let_def
    by (simp only: fold2_set_quadratic_fields fold3_set_quadratic_fields X Y)
qed

subsection \<open>Keys of the combined builder\<close>

lemma zz_keys:
  "k \<in> fst ` set (zz_terms lg W bound nS xs) \<Longrightarrow>
     \<exists>i j s1 s2. i < j \<and> j < xs \<and> s1 < nS \<and> s2 < nS \<and> k = (z_label i s1, z_label j s2)"
  by (auto simp: zz_terms_def)

lemma ww_keys:
  "k \<in> fst ` set (ww_terms lg w) \<Longrightarrow> \<exists>i j. i < j \<and> j < length w \<and> k = (w_label i, w_label j)"
  by (auto simp: ww_terms_def)

lemma zw_keys:
  "k \<in> fst ` set (zw_terms lg W bound nS xs w) \<Longrightarrow>
     \<exists>i s j. i < xs \<and> s < nS \<and> j < length w \<and> k = (z_label i s, w_label j)"
  by (auto simp: zw_terms_def)

lemma dqm_xx_keys:
  "k \<in> fst ` set (dqm_xx_terms I nS) \<Longrightarrow>
     \<exists>i j. 1 \<le> i \<and> i < j \<and> j \<le> nS \<and> k = (x_label i, x_label j)"
  by (auto simp: dqm_xx_terms_def)

lemma dqm_yy_keys:
  "k \<in> fst ` set (dqm_yy_terms nS nU) \<Longrightarrow>
     \<exists>a m n. 1 \<le> a \<and> a \<le> nU \<and> 1 \<le> m \<and> m < n \<and> n \<le> nS \<and> k = (y_label a m, y_label a n)"
  by (auto simp: dqm_yy_terms_def)

lemma dqm_xy_keys:
  "k \<in> fst ` set (dqm_xy_terms I nS nU) \<Longrightarrow>
     \<exists>i a m. 1 \<le> i \<and> i \<le> nS \<and> 1 \<le> a \<and> a \<le> nU \<and> 1 \<le> m \<and> m \<le> nS \<and> k = (x_label i, y_label a m)"
  by (auto simp: dqm_xy_terms_def)

lemma h3_entries:
  "((u, v), d) \<in> set (h3_writes C xs bound nS nw) \<Longrightarrow>
     \<exists>i s. i < xs \<and> 1 \<le> s \<and> s < nS \<and> u = z_label i s \<and> v = x_label (s + 1)
         \<and> d = map (\<lambda>piece1. ((piece1, 1), of_int (- C * int piece1))) [0..<bound ! i]"
  by (auto simp: h3_writes_def)

lemma h3_keys:
  "k \<in> fst ` set (h3_writes C xs bound nS nw) \<Longrightarrow>
     \<exists>i s. i < xs \<and> 1 \<le> s \<and> s < nS \<and> k = (z_label i s, x_label (s + 1))"
  by (auto simp: h3_writes_def)

subsection \<open>The fields of the combined model\<close>

lemma build_combined_dqm_Inr:
  assumes "build_combined_dqm U S W Wbudget V bound = Inr m"
  obtains w where "slack_weights Wbudget = Inr w" and "V \<noteq> []"
    and "dims_ok V W (map (\<lambda>b. b + 1) bound) (length S)"
    and "build_combined_dqm_without_h3 U S W Wbudget V bound =
           Inr (setcover_terms (indicators U S) (length S) (length U)
             (knapsack_terms (of_int (Max (set V)) * (1 / 2)) 0 V W (map (\<lambda>b. b + 1) bound) (length S) w
               (knapsack_variables (length V) (length S) (map (\<lambda>b. b + 1) bound) (length w) empty_dqm)))"
    and "m = h3_terms 0 (length V) (map (\<lambda>b. b + 1) bound) (length S) (length w)
           (setcover_terms (indicators U S) (length S) (length U)
             (knapsack_terms (of_int (Max (set V)) * (1 / 2)) 0 V W (map (\<lambda>b. b + 1) bound) (length S) w
               (knapsack_variables (length V) (length S) (map (\<lambda>b. b + 1) bound) (length w) empty_dqm)))"
  using assms
  unfolding build_combined_dqm_def build_combined_dqm_without_h3_def Let_def
  by (auto split: if_splits sum.splits)

lemma build_combined_dqm_succeeds:
  assumes "V \<noteq> []" and "1 \<le> Wbudget" and "dims_ok V W (map (\<lambda>b. b + 1) bound) (length S)"
  shows "\<exists>m. build_combined_dqm U S W Wbudget V bound = Inr m"
  using assms
  unfolding build_combined_dqm_def Let_def slack_weights_def floor_log2_def
  by simp

lemma in_concat_map2:
  "i \<in> set R \<Longrightarrow> j \<in> set (r i) \<Longrightarrow> g i j \<in> set (concat (map (\<lambda>i. map (g i) (r i)) R))"
  by auto






lemma build_combined_dqm_fields:
  assumes "build_combined_dqm U S W Wbudget V bound = Inr m"
  obtains w m0 where "slack_weights Wbudget = Inr w" and "V \<noteq> []"
    and "dims_ok V W (map (\<lambda>b. b + 1) bound) (length S)"
    and "build_combined_dqm_without_h3 U S W Wbudget V bound = Inr m0"
    and "variables m = variables m0" and "linear_biases m = linear_biases m0"
    and "quadratic_biases m = fold (\<lambda>(k, v). AList.update k v)
           (h3_writes 0 (length V) (map (\<lambda>b. b + 1) bound) (length S) (length w)) (quadratic_biases m0)"
    and "quadratic_biases m0 = fold (\<lambda>(k, v). AList.update k v)
           (dqm_xx_terms (indicators U S) (length S) @ dqm_yy_terms (length S) (length U)
              @ dqm_xy_terms (indicators U S) (length S) (length U))
           (fold (\<lambda>(k, v). AList.update k v)
             (zz_terms (of_int (Max (set V)) * (1 / 2)) W (map (\<lambda>b. b + 1) bound) (length S) (length V)
                @ ww_terms (of_int (Max (set V)) * (1 / 2)) w
                @ zw_terms (of_int (Max (set V)) * (1 / 2)) W (map (\<lambda>b. b + 1) bound) (length S) (length V) w) [])"
    and "\<forall>k. (\<forall>i. k \<noteq> x_label i) \<longrightarrow> (\<forall>a n. k \<noteq> y_label a n) \<longrightarrow>
           map_of (variables m0) k
             = map_of (z_variable_terms (length V) (length S) (map (\<lambda>b. b + 1) bound)
                        @ w_variable_terms (length w)) k"
    and "\<forall>k. (\<forall>i. k \<noteq> x_label i) \<longrightarrow> (\<forall>a n. k \<noteq> y_label a n) \<longrightarrow>
           map_of (linear_biases m0) k
             = map_of (fold (\<lambda>(k, v). AList.update k v)
                 (z_linear_terms (of_int (Max (set V)) * (1 / 2)) 0 V W (map (\<lambda>b. b + 1) bound) (length S)
                    @ w_linear_terms (of_int (Max (set V)) * (1 / 2)) w)
                 (map (\<lambda>(l, n). (l, replicate n 0))
                    (z_variable_terms (length V) (length S) (map (\<lambda>b. b + 1) bound)
                       @ w_variable_terms (length w)))) k"
proof -
  define lg :: rat where "lg = of_int (Max (set V)) * (1 / 2)"
  define bound' where "bound' = map (\<lambda>b. b + 1) bound"
  define M0 where "M0 w = knapsack_variables (length V) (length S) bound' (length w) empty_dqm" for w :: "int list"
  define M1 where "M1 w = knapsack_terms lg 0 V W bound' (length S) w (M0 w)" for w
  define M2 where "M2 w = setcover_terms (indicators U S) (length S) (length U) (M1 w)" for w
  from assms obtain w where w: "slack_weights Wbudget = Inr w" and V: "V \<noteq> []"
    and dims: "dims_ok V W bound' (length S)"
    and m0: "build_combined_dqm_without_h3 U S W Wbudget V bound = Inr (M2 w)"
    and m: "m = h3_terms 0 (length V) bound' (length S) (length w) (M2 w)"
    unfolding lg_def bound'_def M0_def M1_def M2_def by (rule build_combined_dqm_Inr)
  have f1: "variables m = variables (M2 w)" "linear_biases m = linear_biases (M2 w)"
    "quadratic_biases m = fold (\<lambda>(k, v). AList.update k v)
       (h3_writes 0 (length V) bound' (length S) (length w)) (quadratic_biases (M2 w))"
    by (simp_all add: m h3_terms_closed)
  have q0: "quadratic_biases (M0 w) = []" "variables (M0 w) = z_variable_terms (length V) (length S) bound' @ w_variable_terms (length w)"
    "linear_biases (M0 w) = map (\<lambda>(l, n). (l, replicate n 0))
        (z_variable_terms (length V) (length S) bound' @ w_variable_terms (length w))"
    by (simp_all add: M0_def knapsack_variables_closed empty_dqm_def)
  have q1: "quadratic_biases (M1 w) = fold (\<lambda>(k, v). AList.update k v)
             (zz_terms lg W bound' (length S) (length V) @ ww_terms lg w
                @ zw_terms lg W bound' (length S) (length V) w) (quadratic_biases (M0 w))"
    "variables (M1 w) = variables (M0 w)"
    "linear_biases (M1 w) = fold (\<lambda>(k, v). AList.update k v)
        (z_linear_terms lg 0 V W bound' (length S) @ w_linear_terms lg w) (linear_biases (M0 w))"
    unfolding M1_def knapsack_terms_closed by simp_all
  have q2: "quadratic_biases (M2 w) = fold (\<lambda>(k, v). AList.update k v)
           (dqm_xx_terms (indicators U S) (length S) @ dqm_yy_terms (length S) (length U)
              @ dqm_xy_terms (indicators U S) (length S) (length U)) (quadratic_biases (M1 w))"
    unfolding M2_def by (rule setcover_terms_quadratic)
  have v2: "map_of (variables (M2 w)) k = map_of (variables (M1 w)) k"
    "map_of (linear_biases (M2 w)) k = map_of (linear_biases (M1 w)) k"
    if "\<And>i. k \<noteq> x_label i" "\<And>a n. k \<noteq> y_label a n" for k
    unfolding M2_def
    by (rule setcover_terms_variables_other [OF that], rule setcover_terms_linear_other [OF that])
  show ?thesis
  proof (rule that [of w "M2 w"])
    show "slack_weights Wbudget = Inr w" by (rule w)
    show "V \<noteq> []" by (rule V)
    show "dims_ok V W (map (\<lambda>b. b + 1) bound) (length S)"
      using dims by (simp only: bound'_def)
    show "build_combined_dqm_without_h3 U S W Wbudget V bound = Inr (M2 w)" by (rule m0)
    show "variables m = variables (M2 w)" by (rule f1)
    show "linear_biases m = linear_biases (M2 w)" by (rule f1)
    show "quadratic_biases m = fold (\<lambda>(k, v). AList.update k v)
           (h3_writes 0 (length V) (map (\<lambda>b. b + 1) bound) (length S) (length w))
           (quadratic_biases (M2 w))"
      using f1(3) by (simp only: bound'_def)
    show "quadratic_biases (M2 w) = fold (\<lambda>(k, v). AList.update k v)
           (dqm_xx_terms (indicators U S) (length S) @ dqm_yy_terms (length S) (length U)
              @ dqm_xy_terms (indicators U S) (length S) (length U))
           (fold (\<lambda>(k, v). AList.update k v)
             (zz_terms (of_int (Max (set V)) * (1 / 2)) W (map (\<lambda>b. b + 1) bound) (length S) (length V)
                @ ww_terms (of_int (Max (set V)) * (1 / 2)) w
                @ zw_terms (of_int (Max (set V)) * (1 / 2)) W (map (\<lambda>b. b + 1) bound) (length S) (length V) w) [])"
      by (simp only: q2 q1 q0 lg_def bound'_def)
    show "\<forall>k. (\<forall>i. k \<noteq> x_label i) \<longrightarrow> (\<forall>a n. k \<noteq> y_label a n) \<longrightarrow>
           map_of (variables (M2 w)) k
             = map_of (z_variable_terms (length V) (length S) (map (\<lambda>b. b + 1) bound)
                        @ w_variable_terms (length w)) k"
    proof (intro allI impI)
      fix k :: string
      assume "\<forall>i. k \<noteq> x_label i" "\<forall>a n. k \<noteq> y_label a n"
      then have k: "\<And>i. k \<noteq> x_label i" "\<And>a n. k \<noteq> y_label a n" by blast+
      show "map_of (variables (M2 w)) k
             = map_of (z_variable_terms (length V) (length S) (map (\<lambda>b. b + 1) bound)
                        @ w_variable_terms (length w)) k"
        by (simp only: v2(1) [OF k] q1 q0 bound'_def)
    qed
    show "\<forall>k. (\<forall>i. k \<noteq> x_label i) \<longrightarrow> (\<forall>a n. k \<noteq> y_label a n) \<longrightarrow>
           map_of (linear_biases (M2 w)) k
             = map_of (fold (\<lambda>(k, v). AList.update k v)
                 (z_linear_terms (of_int (Max (set V)) * (1 / 2)) 0 V W (map (\<lambda>b. b + 1) bound) (length S)
                    @ w_linear_terms (of_int (Max (set V)) * (1 / 2)) w)
                 (map (\<lambda>(l, n). (l, replicate n 0))
                    (z_variable_terms (length V) (length S) (map (\<lambda>b. b + 1) bound)
                       @ w_variable_terms (length w)))) k"
    proof (intro allI impI)
      fix k :: string
      assume "\<forall>i. k \<noteq> x_label i" "\<forall>a n. k \<noteq> y_label a n"
      then have k: "\<And>i. k \<noteq> x_label i" "\<And>a n. k \<noteq> y_label a n" by blast+
      show "map_of (linear_biases (M2 w)) k
             = map_of (fold (\<lambda>(k, v). AList.update k v)
                 (z_linear_terms (of_int (Max (set V)) * (1 / 2)) 0 V W (map (\<lambda>b. b + 1) bound) (length S)
                    @ w_linear_terms (of_int (Max (set V)) * (1 / 2)) w)
                 (map (\<lambda>(l, n). (l, replicate n 0))
                    (z_variable_terms (length V) (length S) (map (\<lambda>b. b + 1) bound)
                       @ w_variable_terms (length w)))) k"
        by (simp only: v2(2) [OF k] q1 q0 lg_def bound'_def)
    qed
  qed
qed

subsection \<open>Entries that hold zeros\<close>

lemma dqm_energy_split:
  "dqm_energy m s = (\<Sum>(v, biases) \<leftarrow> linear_biases m. biases ! s v) + quadratic_energy (quadratic_biases m) s"
  by (simp add: dqm_energy_def quadratic_energy_def)

lemma zero_biases_lookup:
  assumes "zero_biases d"
  shows "(case map_of d c of None \<Rightarrow> 0 | Some b \<Rightarrow> b) = 0"
proof (cases "map_of d c")
  case None
  then show ?thesis by simp
next
  case (Some b)
  then have "(c, b) \<in> set d" by (rule map_of_SomeD)
  with assms have "b = 0" by (auto simp: zero_biases_def list_all_iff)
  with Some show ?thesis by simp
qed

lemma set_alist_update: "set (AList.update k v al) \<subseteq> insert (k, v) (set al)"
  by (induction al) auto

lemma quadratic_energy_update_zero:
  assumes "zero_biases d" and "\<And>d'. (k, d') \<in> set al \<Longrightarrow> zero_biases d'"
  shows "quadratic_energy (AList.update k d al) s = quadratic_energy al s"
  using assms(2)
proof (induction al)
  case Nil
  show ?case
    by (cases k) (simp add: quadratic_energy_def zero_biases_lookup [OF assms(1)])
next
  case (Cons e al)
  obtain k' d' where e: "e = (k', d')" by (cases e)
  show ?case
  proof (cases "k' = k")
    case True
    have "zero_biases d'"
      by (rule Cons.prems) (simp add: e True)
    then show ?thesis
      by (cases k) (simp add: e True quadratic_energy_def zero_biases_lookup [OF assms(1)] zero_biases_lookup)
  next
    case False
    have "quadratic_energy (AList.update k d al) s = quadratic_energy al s"
      using Cons.prems by (intro Cons.IH) simp
    then show ?thesis
      using False by (simp add: e quadratic_energy_def)
  qed
qed

lemma quadratic_energy_fold_zero:
  assumes "\<And>k d. (k, d) \<in> set es \<Longrightarrow> zero_biases d"
    and "\<And>k d d'. (k, d) \<in> set es \<Longrightarrow> (k, d') \<in> set al \<Longrightarrow> zero_biases d'"
  shows "quadratic_energy (fold (\<lambda>(k, v). AList.update k v) es al) s = quadratic_energy al s"
  using assms
proof (induction es arbitrary: al)
  case Nil
  show ?case by simp
next
  case (Cons e es)
  obtain k d where e: "e = (k, d)" by (cases e)
  have zd: "zero_biases d"
  proof (rule Cons.prems(1))
    show "(k, d) \<in> set (e # es)" by (simp add: e)
  qed
  have old: "zero_biases d'" if "(k, d') \<in> set al" for d'
  proof (rule Cons.prems(2))
    show "(k, d) \<in> set (e # es)" by (simp add: e)
    show "(k, d') \<in> set al" by (rule that)
  qed
  have step: "quadratic_energy (AList.update k d al) s = quadratic_energy al s"
    using zd old by (rule quadratic_energy_update_zero)
  have "quadratic_energy (fold (\<lambda>(k, v). AList.update k v) es (AList.update k d al)) s
      = quadratic_energy (AList.update k d al) s"
  proof (rule Cons.IH)
    fix k2 d2 assume "(k2, d2) \<in> set es"
    then have "(k2, d2) \<in> set (e # es)" by simp
    then show "zero_biases d2" by (rule Cons.prems(1))
  next
    fix k2 d2 d' assume in_es: "(k2, d2) \<in> set es" and "(k2, d') \<in> set (AList.update k d al)"
    then have "(k2, d') = (k, d) \<or> (k2, d') \<in> set al"
      using set_alist_update [of k d al] by auto
    then show "zero_biases d'"
    proof
      assume "(k2, d') = (k, d)"
      with zd show ?thesis by simp
    next
      assume "(k2, d') \<in> set al"
      moreover from in_es have "(k2, d2) \<in> set (e # es)" by simp
      ultimately show ?thesis by (rule Cons.prems(2) [rotated])
    qed
  qed
  with step show ?case by (simp add: e)
qed

lemma h3_writes_zero:
  assumes "(k, d) \<in> set (h3_writes 0 xs bound nS nw)"
  shows "zero_biases d"
proof -
  obtain u v where k: "k = (u, v)" by (cases k)
  from assms obtain i where "d = map (\<lambda>piece1. ((piece1, 1), of_int (- 0 * int piece1))) [0..<bound ! i]"
    unfolding k by (blast dest: h3_entries)
  then show ?thesis
    by (simp add: zero_biases_def list_all_iff)
qed

lemma base_keys_not_h3:
  assumes "k \<in> fst ` set (fold (\<lambda>(k, v). AList.update k v)
           (dqm_xx_terms I nS @ dqm_yy_terms nS nU @ dqm_xy_terms I nS nU)
           (fold (\<lambda>(k, v). AList.update k v)
             (zz_terms lg W bound nS xs @ ww_terms lg w @ zw_terms lg W bound nS xs w) []))"
  shows "k \<noteq> (z_label i s, x_label j)"
proof -
  from assms have "k \<in> fst ` set (zz_terms lg W bound nS xs) \<or> k \<in> fst ` set (ww_terms lg w)
      \<or> k \<in> fst ` set (zw_terms lg W bound nS xs w) \<or> k \<in> fst ` set (dqm_xx_terms I nS)
      \<or> k \<in> fst ` set (dqm_yy_terms nS nU) \<or> k \<in> fst ` set (dqm_xy_terms I nS nU)"
    unfolding keys_fold_update by (auto simp: image_Un)
  then show ?thesis
    by (auto dest!: zz_keys ww_keys zw_keys dqm_xx_keys dqm_yy_keys dqm_xy_keys)
qed

subsection \<open>Distinct keys\<close>

lemma count_key_le_1:
  "distinct (map fst al) \<Longrightarrow> length (filter (\<lambda>(k, c). k = x) al) \<le> 1"
proof (induction al)
  case Nil
  show ?case by simp
next
  case (Cons e al)
  obtain k c where e: "e = (k, c)" by (cases e)
  show ?case
  proof (cases "k = x")
    case True
    with Cons.prems have "x \<notin> fst ` set al" by (simp add: e)
    then have "filter (\<lambda>(k, c). k = x) al = []"
      by (force simp: filter_empty_conv)
    then show ?thesis by (simp add: e True)
  next
    case False
    with Cons show ?thesis by (simp add: e)
  qed
qed

lemma unordered_count_le_1:
  assumes d: "distinct (map fst al)"
    and nomirror: "\<And>a b. (a, b) \<in> fst ` set al \<Longrightarrow> (b, a) \<notin> fst ` set al"
  shows "length (filter (\<lambda>(k, c). k = (u, v) \<or> k = (v, u)) al) \<le> 1"
proof (cases "(v, u) \<in> fst ` set al")
  case True
  then have "(u, v) \<notin> fst ` set al" by (rule nomirror)
  then have "filter (\<lambda>(k, c). k = (u, v) \<or> k = (v, u)) al = filter (\<lambda>(k, c). k = (v, u)) al"
    by (intro filter_cong refl) force
  then show ?thesis
    using count_key_le_1 [OF d, of "(v, u)"] by simp
next
  case False
  then have "filter (\<lambda>(k, c). k = (u, v) \<or> k = (v, u)) al = filter (\<lambda>(k, c). k = (u, v)) al"
    by (intro filter_cong refl) force
  then show ?thesis
    using count_key_le_1 [OF d, of "(u, v)"] by simp
qed

lemma setcover_quadratic_keys:
  assumes "k \<in> fst ` set (quadratic (fst (build_setcover_bqm U V)))"
  shows "(\<exists>i j. 1 \<le> i \<and> i < j \<and> j \<le> length V \<and> k = (x_label i, x_label j))
       \<or> (\<exists>a m n. 1 \<le> a \<and> a \<le> length U \<and> 1 \<le> m \<and> m < n \<and> n \<le> length V
             \<and> k = (y_label a m, y_label a n))
       \<or> (\<exists>i a m. 1 \<le> i \<and> i \<le> length V \<and> 1 \<le> a \<and> a \<le> length U \<and> 1 \<le> m \<and> m \<le> length V
             \<and> k = (x_label i, y_label a m))"
proof -
  from assms have "k \<in> fst ` set (xx_terms (indicators U V) (length V) 2)
      \<or> k \<in> fst ` set (yy_terms (length V) (length U) 2)
      \<or> k \<in> fst ` set (xy_terms (indicators U V) (length V) (length U) 2)"
    by (auto simp: build_setcover_bqm_closed image_Un)
  then show ?thesis
    using xx_keys [of k "indicators U V" "length V" 2] yy_keys [of k "length V" "length U" 2]
      xy_keys [of k "indicators U V" "length V" "length U" 2]
    by blast
qed

lemma setcover_quadratic_distinct:
  "distinct (map fst (quadratic (fst (build_setcover_bqm U V))))"
proof -
  have "distinct (map fst (xx_terms I N A @ yy_terms N n A @ xy_terms I N n A))" for I N n A
    using distinct_xx_keys [of I N A] distinct_yy_keys [of N n A] distinct_xy_keys [of I N n A]
    by (auto dest!: xx_keys yy_keys xy_keys)
  then show ?thesis
    by (simp add: build_setcover_bqm_closed)
qed

lemma setcover_quadratic_no_mirror:
  assumes "(a, b) \<in> fst ` set (quadratic (fst (build_setcover_bqm U V)))"
  shows "(b, a) \<notin> fst ` set (quadratic (fst (build_setcover_bqm U V)))"
proof
  assume "(b, a) \<in> fst ` set (quadratic (fst (build_setcover_bqm U V)))"
  from setcover_quadratic_keys [OF assms] setcover_quadratic_keys [OF this]
  show False by auto
qed

lemma keys3:
  "fst ` set (fold (\<lambda>(k, v). AList.update k v) es3
      (fold (\<lambda>(k, v). AList.update k v) es2 (fold (\<lambda>(k, v). AList.update k v) es1 [])))
    = fst ` set es1 \<union> fst ` set es2 \<union> fst ` set es3"
  by (simp only: keys_fold_update list.set image_empty Un_empty_left)

lemma d3: "distinct (map fst (fold (\<lambda>(k, v). AList.update k v) es3
      (fold (\<lambda>(k, v). AList.update k v) es2 (fold (\<lambda>(k, v). AList.update k v) es1 []))))"
  by (rule distinct_fold_update, rule distinct_fold_update, rule distinct_fold_update) simp

lemma combined_quadratic_keys:
  assumes "build_combined_dqm U S W Wbudget V bound = Inr m"
    and "k \<in> fst ` set (quadratic_biases m)"
  shows "(\<exists>i j s1 s2. i < j \<and> k = (z_label i s1, z_label j s2))
       \<or> (\<exists>i j. i < j \<and> k = (w_label i, w_label j))
       \<or> (\<exists>i s j. k = (z_label i s, w_label j))
       \<or> (\<exists>i j. i < j \<and> k = (x_label i, x_label j))
       \<or> (\<exists>a m n. m < n \<and> k = (y_label a m, y_label a n))
       \<or> (\<exists>i a m. k = (x_label i, y_label a m))
       \<or> (\<exists>i s. 1 \<le> s \<and> k = (z_label i s, x_label (s + 1)))"
proof -
  define lg :: rat where "lg = of_int (Max (set V)) * (1 / 2)"
  define bound' where "bound' = map (\<lambda>b. b + 1) bound"
  from assms(1) obtain w m0 where "slack_weights Wbudget = Inr w" and "V \<noteq> []"
    and "dims_ok V W bound' (length S)"
    and "build_combined_dqm_without_h3 U S W Wbudget V bound = Inr m0"
    and "variables m = variables m0" and "linear_biases m = linear_biases m0"
    and qm: "quadratic_biases m = fold (\<lambda>(k, v). AList.update k v)
           (h3_writes 0 (length V) bound' (length S) (length w)) (quadratic_biases m0)"
    and q0: "quadratic_biases m0 = fold (\<lambda>(k, v). AList.update k v)
           (dqm_xx_terms (indicators U S) (length S) @ dqm_yy_terms (length S) (length U)
              @ dqm_xy_terms (indicators U S) (length S) (length U))
           (fold (\<lambda>(k, v). AList.update k v)
             (zz_terms lg W bound' (length S) (length V) @ ww_terms lg w
                @ zw_terms lg W bound' (length S) (length V) w) [])"
    and "\<forall>k. (\<forall>i. k \<noteq> x_label i) \<longrightarrow> (\<forall>a n. k \<noteq> y_label a n) \<longrightarrow>
           map_of (variables m0) k
             = map_of (z_variable_terms (length V) (length S) bound' @ w_variable_terms (length w)) k"
    and "\<forall>k. (\<forall>i. k \<noteq> x_label i) \<longrightarrow> (\<forall>a n. k \<noteq> y_label a n) \<longrightarrow>
           map_of (linear_biases m0) k
             = map_of (fold (\<lambda>(k, v). AList.update k v)
                 (z_linear_terms lg 0 V W bound' (length S) @ w_linear_terms lg w)
                 (map (\<lambda>(l, n). (l, replicate n 0))
                    (z_variable_terms (length V) (length S) bound' @ w_variable_terms (length w)))) k"
    unfolding lg_def bound'_def by (rule build_combined_dqm_fields)
  from assms(2) have "k \<in> fst ` set (zz_terms lg W bound' (length S) (length V) @ ww_terms lg w
                @ zw_terms lg W bound' (length S) (length V) w)
      \<union> fst ` set (dqm_xx_terms (indicators U S) (length S) @ dqm_yy_terms (length S) (length U)
              @ dqm_xy_terms (indicators U S) (length S) (length U))
      \<union> fst ` set (h3_writes 0 (length V) bound' (length S) (length w))"
    by (simp only: qm q0 keys3)
  then have "k \<in> fst ` set (zz_terms lg W bound' (length S) (length V))
      \<or> k \<in> fst ` set (ww_terms lg w)
      \<or> k \<in> fst ` set (zw_terms lg W bound' (length S) (length V) w)
      \<or> k \<in> fst ` set (dqm_xx_terms (indicators U S) (length S))
      \<or> k \<in> fst ` set (dqm_yy_terms (length S) (length U))
      \<or> k \<in> fst ` set (dqm_xy_terms (indicators U S) (length S) (length U))
      \<or> k \<in> fst ` set (h3_writes 0 (length V) bound' (length S) (length w))"
    by (simp only: set_append image_Un Un_iff disj_assoc)
  then show ?thesis
  proof (elim disjE)
    assume "k \<in> fst ` set (zz_terms lg W bound' (length S) (length V))"
    from zz_keys [OF this] obtain i j s1 s2 where f: "i < j" "k = (z_label i s1, z_label j s2)"
      by (elim exE conjE)
    show ?thesis
      by (rule disjI1, intro exI conjI) (rule f)+
  next
    assume "k \<in> fst ` set (ww_terms lg w)"
    from ww_keys [OF this] obtain i j where f: "i < j" "k = (w_label i, w_label j)"
      by (elim exE conjE)
    show ?thesis
      by (rule disjI2, rule disjI1, intro exI conjI) (rule f)+
  next
    assume "k \<in> fst ` set (zw_terms lg W bound' (length S) (length V) w)"
    from zw_keys [OF this] obtain i s j where f: "k = (z_label i s, w_label j)"
      by (elim exE conjE)
    show ?thesis
      by (rule disjI2, rule disjI2, rule disjI1, intro exI conjI) (rule f)+
  next
    assume "k \<in> fst ` set (dqm_xx_terms (indicators U S) (length S))"
    from dqm_xx_keys [OF this] obtain i j where f: "i < j" "k = (x_label i, x_label j)"
      by (elim exE conjE)
    show ?thesis
      by (rule disjI2, rule disjI2, rule disjI2, rule disjI1, intro exI conjI) (rule f)+
  next
    assume "k \<in> fst ` set (dqm_yy_terms (length S) (length U))"
    from dqm_yy_keys [OF this] obtain a m n where f: "m < n" "k = (y_label a m, y_label a n)"
      by (elim exE conjE)
    show ?thesis
      by (rule disjI2, rule disjI2, rule disjI2, rule disjI2, rule disjI1, intro exI conjI) (rule f)+
  next
    assume "k \<in> fst ` set (dqm_xy_terms (indicators U S) (length S) (length U))"
    from dqm_xy_keys [OF this] obtain i a m where f: "k = (x_label i, y_label a m)"
      by (elim exE conjE)
    show ?thesis
      by (rule disjI2, rule disjI2, rule disjI2, rule disjI2, rule disjI2, rule disjI1, intro exI conjI) (rule f)+
  next
    assume "k \<in> fst ` set (h3_writes 0 (length V) bound' (length S) (length w))"
    from h3_keys [OF this] obtain i s where f: "1 \<le> s" "k = (z_label i s, x_label (s + 1))"
      by (elim exE conjE)
    show ?thesis
      by (rule disjI2, rule disjI2, rule disjI2, rule disjI2, rule disjI2, rule disjI2, intro exI conjI) (rule f)+
  qed
qed

lemma combined_quadratic_distinct:
  assumes "build_combined_dqm U S W Wbudget V bound = Inr m"
  shows "distinct (map fst (quadratic_biases m))"
proof -
  from assms obtain w m0 where "slack_weights Wbudget = Inr w" and "V \<noteq> []"
    and "dims_ok V W (map (\<lambda>b. b + 1) bound) (length S)"
    and "build_combined_dqm_without_h3 U S W Wbudget V bound = Inr m0"
    and "variables m = variables m0" and "linear_biases m = linear_biases m0"
    and qm: "quadratic_biases m = fold (\<lambda>(k, v). AList.update k v)
           (h3_writes 0 (length V) (map (\<lambda>b. b + 1) bound) (length S) (length w)) (quadratic_biases m0)"
    and q0: "quadratic_biases m0 = fold (\<lambda>(k, v). AList.update k v)
           (dqm_xx_terms (indicators U S) (length S) @ dqm_yy_terms (length S) (length U)
              @ dqm_xy_terms (indicators U S) (length S) (length U))
           (fold (\<lambda>(k, v). AList.update k v)
             (zz_terms (of_int (Max (set V)) * (1 / 2)) W (map (\<lambda>b. b + 1) bound) (length S) (length V)
                @ ww_terms (of_int (Max (set V)) * (1 / 2)) w
                @ zw_terms (of_int (Max (set V)) * (1 / 2)) W (map (\<lambda>b. b + 1) bound) (length S) (length V) w) [])"
    and "\<forall>k. (\<forall>i. k \<noteq> x_label i) \<longrightarrow> (\<forall>a n. k \<noteq> y_label a n) \<longrightarrow>
           map_of (variables m0) k
             = map_of (z_variable_terms (length V) (length S) (map (\<lambda>b. b + 1) bound)
                 @ w_variable_terms (length w)) k"
    and "\<forall>k. (\<forall>i. k \<noteq> x_label i) \<longrightarrow> (\<forall>a n. k \<noteq> y_label a n) \<longrightarrow>
           map_of (linear_biases m0) k
             = map_of (fold (\<lambda>(k, v). AList.update k v)
                 (z_linear_terms (of_int (Max (set V)) * (1 / 2)) 0 V W (map (\<lambda>b. b + 1) bound) (length S)
                    @ w_linear_terms (of_int (Max (set V)) * (1 / 2)) w)
                 (map (\<lambda>(l, n). (l, replicate n 0))
                    (z_variable_terms (length V) (length S) (map (\<lambda>b. b + 1) bound)
                       @ w_variable_terms (length w)))) k"
    by (rule build_combined_dqm_fields)
  show ?thesis
    unfolding qm q0 by (rule d3)
qed

lemma combined_quadratic_no_mirror:
  assumes "build_combined_dqm U S W Wbudget V bound = Inr m"
    and "(a, b) \<in> fst ` set (quadratic_biases m)"
  shows "(b, a) \<notin> fst ` set (quadratic_biases m)"
proof
  assume "(b, a) \<in> fst ` set (quadratic_biases m)"
  from combined_quadratic_keys [OF assms] combined_quadratic_keys [OF assms(1) this]
  show False by auto
qed

subsection \<open>The combined instance\<close>

lemma example_combined_succeeds:
  "build_combined_dqm example_U example_S example_W 3 example_values example_bound
     = Inr (projr (build_combined_dqm example_U example_S example_W 3 example_values example_bound))"
proof -
  have "dims_ok example_values example_W (map (\<lambda>b. b + 1) example_bound) (length example_S)"
    by (simp add: dims_ok_def example_values_def example_W_def example_bound_def example_S_def)
  then have "\<exists>m. build_combined_dqm example_U example_S example_W 3 example_values example_bound = Inr m"
    by (intro build_combined_dqm_succeeds) (simp_all add: example_values_def)
  then show ?thesis by auto
qed

subsection \<open>Checked writes and coefficient lookup\<close>

lemma checked_writes_no_self_pair:
  "(\<And>u v c. ((u, v), c) \<in> set ws \<Longrightarrow> u \<noteq> v) \<Longrightarrow>
   checked_writes ws m = Inr (fold (\<lambda>(k, c). quadratic_setitem k c) ws m)"
proof (induction ws arbitrary: m)
  case Nil
  show ?case by simp
next
  case (Cons e ws)
  obtain u v c where e: "e = ((u, v), c)" by (cases e) auto
  have "u \<noteq> v"
    by (rule Cons.prems [of u v c]) (simp add: e)
  moreover have "checked_writes ws m' = Inr (fold (\<lambda>(k, c). quadratic_setitem k c) ws m')" for m'
  proof (rule Cons.IH)
    fix u v c assume "((u, v), c) \<in> set ws"
    then have "((u, v), c) \<in> set (e # ws)" by simp
    then show "u \<noteq> v" by (rule Cons.prems)
  qed
  ultimately show ?case
    by (simp add: e checked_quadratic_setitem_def)
qed

lemma setcover_linear_lookup:
  "1 \<le> i \<Longrightarrow> i \<le> length V \<Longrightarrow>
     map_of (linear (fst (build_setcover_bqm U V))) (x_label i)
       = Some (2 * sum_list (indicators U V ! (i - 1)) + 1)"
  "1 \<le> a \<Longrightarrow> a \<le> length U \<Longrightarrow> 1 \<le> m \<Longrightarrow> m \<le> length V \<Longrightarrow>
     map_of (linear (fst (build_setcover_bqm U V))) (y_label a m) = Some (2 * ((int m)\<^sup>2 - 1))"
proof -
  let ?xs = "x_linear_terms (indicators U V) (length V) 2 1"
  let ?ys = "y_linear_terms (length V) (length U) 2"
  have d: "distinct (map fst (?xs @ ?ys))"
    using distinct_x_linear_keys [of "indicators U V" "length V" 2 1]
      distinct_y_linear_keys [of "length V" "length U" 2]
    by (auto dest!: x_linear_keys y_linear_keys)
  have lin: "linear (fst (build_setcover_bqm U V)) = ?xs @ ?ys"
    by (simp add: build_setcover_bqm_closed)
  {
    assume i: "1 \<le> i" "i \<le> length V"
    then have "(x_label i, 2 * sum_list (indicators U V ! (i - 1)) + 1) \<in> set ?xs"
      unfolding x_linear_terms_def set_map
      by (intro image_eqI [where x = "i - 1"]) auto
    then have "(x_label i, 2 * sum_list (indicators U V ! (i - 1)) + 1) \<in> set (?xs @ ?ys)"
      by simp
    from map_of_is_SomeI [OF d this]
    show "map_of (linear (fst (build_setcover_bqm U V))) (x_label i)
       = Some (2 * sum_list (indicators U V ! (i - 1)) + 1)"
      by (simp only: lin)
  }
  {
    assume "1 \<le> a" "a \<le> length U" "1 \<le> m" "m \<le> length V"
    then have "(y_label a m, 2 * ((int m)\<^sup>2 - 1)) \<in> set ?ys"
      unfolding y_linear_terms_def
      by (intro in_concat_map2 [where i = a and j = m]) auto
    then have "(y_label a m, 2 * ((int m)\<^sup>2 - 1)) \<in> set (?xs @ ?ys)"
      by simp
    from map_of_is_SomeI [OF d this]
    show "map_of (linear (fst (build_setcover_bqm U V))) (y_label a m) = Some (2 * ((int m)\<^sup>2 - 1))"
      by (simp only: lin)
  }
qed




section \<open>The claims\<close>

subsection \<open>C1: the slack weights reach exactly the numbers from 0 to the budget\<close>



subsection \<open>C2: the coefficients of the set-cover model are the expanded Hamiltonian\<close>

text \<open>
  Claim C2. For every universe \<open>U\<close>, every family of sets \<open>V\<close> and every assignment of 0 or 1
  to the variables, the energy of the model that \<open>build_setcover_bqm\<close> returns (its linear
  and quadratic coefficients at the assignment) is the Hamiltonian
  \<open>A \<Sum>\<^sub>a (1 - \<Sum>\<^sub>m y\<^sub>a\<^sub>m)\<^sup>2 + A \<Sum>\<^sub>a (\<Sum>\<^sub>m m y\<^sub>a\<^sub>m - \<Sum>\<^sub>i I\<^sub>i\<^sub>a x\<^sub>i)\<^sup>2 + B \<Sum>\<^sub>i x\<^sub>i\<close>
  minus the constant \<open>A |U|\<close>, with \<open>A = 2\<close> and \<open>B = 1\<close>, as an equation of integers.
\<close>

theorem setcover_energy:
  assumes bin: "\<forall>v. s v = 0 \<or> s v = 1"
  shows "energy (fst (build_setcover_bqm U V)) s = hamiltonian U V s - 2 * int (length U)"
proof -
  define N where "N = length V"
  define n where "n = length U"
  define I where "I = indicators U V"
  define c where "c = ind U V"
  define x where "x i = s (x_label i)" for i
  define y where "y a m = s (y_label a m)" for a m
  have xb: "x i = 0 \<or> x i = 1" for i using bin by (simp add: x_def)
  have yb: "y a m = 0 \<or> y a m = 1" for a m using bin by (simp add: y_def)
  have cb: "c a i = 0 \<or> c a i = 1" for a i by (simp add: c_def ind_binary)
  have E1: "(\<Sum>(v, b)\<leftarrow>x_linear_terms I N 2 1. b * s v)
          = (\<Sum>a = 1..n. \<Sum>i = 1..N. 2 * c a i * x i) + (\<Sum>i = 1..N. x i)"
  proof -
    have "(\<Sum>(v, b)\<leftarrow>x_linear_terms I N 2 1. b * s v)
        = (\<Sum>i = 0..<N. (2 * sum_list (I ! i) + 1) * x (i + 1))"
      by (simp add: x_linear_terms_def comp_def x_def interv_sum_list_conv_sum_set_nat)
    also have "\<dots> = (\<Sum>i = 0..<N. (2 * (\<Sum>a = 1..n. c a (i + 1)) + 1) * x (i + 1))"
      by (intro sum.cong refl) (simp add: I_def N_def n_def c_def indicators_row_sum)
    also have "\<dots> = (\<Sum>i = 1..N. (2 * (\<Sum>a = 1..n. c a i) + 1) * x i)"
      by (rule sum.reindex_bij_witness [of _ "\<lambda>i. i - 1" "\<lambda>i. i + 1"]) auto
    also have "\<dots> = (\<Sum>i = 1..N. \<Sum>a = 1..n. 2 * c a i * x i) + (\<Sum>i = 1..N. x i)"
      by (simp add: algebra_simps sum_distrib_left sum_distrib_right sum.distrib)
    also have "(\<Sum>i = 1..N. \<Sum>a = 1..n. 2 * c a i * x i) = (\<Sum>a = 1..n. \<Sum>i = 1..N. 2 * c a i * x i)"
      by (rule sum.swap)
    finally show ?thesis .
  qed
  have E2: "(\<Sum>(v, b)\<leftarrow>y_linear_terms N n 2. b * s v)
          = (\<Sum>a = 1..n. \<Sum>m = 1..N. 2 * ((int m)\<^sup>2 - 1) * y a m)"
    unfolding y_linear_terms_def sum_list_concat_map map_map sum_list_upt_Suc
    by (simp add: comp_def y_def)
  have E3: "(\<Sum>((u, v), b)\<leftarrow>xx_terms I N 2. b * s u * s v)
          = (\<Sum>a = 1..n. \<Sum>i = 1..N. \<Sum>j = i + 1..N. 2 * 2 * (c a i * c a j) * x i * x j)"
  proof -
    have "(\<Sum>((u, v), b)\<leftarrow>xx_terms I N 2. b * s u * s v)
        = (\<Sum>i = 1..N. \<Sum>j = i + 1..N. 2 * 2 * dot (I ! (i - 1)) (I ! (j - 1)) * x i * x j)"
      unfolding xx_terms_def sum_list_concat_map map_map sum_list_upt_Suc
      by (simp add: comp_def x_def)
    also have "\<dots> = (\<Sum>i = 1..N. \<Sum>j = i + 1..N. 2 * 2 * (\<Sum>a = 1..n. c a i * c a j) * x i * x j)"
    proof (intro sum.cong refl)
      fix i j assume "i \<in> {1..N}" "j \<in> {i + 1..N}"
      then have "dot (I ! (i - 1)) (I ! (j - 1)) = (\<Sum>a = 1..n. c a i * c a j)"
        unfolding I_def N_def n_def c_def by (intro indicators_dot) auto
      then show "2 * 2 * dot (I ! (i - 1)) (I ! (j - 1)) * x i * x j
               = 2 * 2 * (\<Sum>a = 1..n. c a i * c a j) * x i * x j"
        by (simp only:)
    qed
    also have "\<dots> = (\<Sum>i = 1..N. \<Sum>j = i + 1..N. \<Sum>a = 1..n. 2 * 2 * (c a i * c a j) * x i * x j)"
      by (simp add: sum_distrib_left sum_distrib_right)
    also have "\<dots> = (\<Sum>a = 1..n. \<Sum>i = 1..N. \<Sum>j = i + 1..N. 2 * 2 * (c a i * c a j) * x i * x j)"
      by (rule swap_inner_lt)
    finally show ?thesis .
  qed
  have E4: "(\<Sum>((u, v), b)\<leftarrow>yy_terms N n 2. b * s u * s v)
          = (\<Sum>a = 1..n. \<Sum>m = 1..N. \<Sum>n' = m + 1..N. 2 * 2 * (1 + int m * int n') * y a m * y a n')"
  proof -
    have "(\<Sum>((u, v), b)\<leftarrow>yy_terms N n 2. b * s u * s v)
        = (\<Sum>m = 1..N. \<Sum>n' = m + 1..N. \<Sum>a = 1..n. 2 * 2 * (1 + int m * int n') * y a m * y a n')"
      unfolding yy_terms_def sum_list_concat_map map_map sum_list_upt_Suc
      by (simp add: comp_def y_def)
    also have "\<dots> = (\<Sum>a = 1..n. \<Sum>m = 1..N. \<Sum>n' = m + 1..N. 2 * 2 * (1 + int m * int n') * y a m * y a n')"
      by (rule swap_inner_lt)
    finally show ?thesis .
  qed
  have E5: "(\<Sum>((u, v), b)\<leftarrow>xy_terms I N n 2. b * s u * s v)
          = (\<Sum>a = 1..n. \<Sum>i = 1..N. \<Sum>m = 1..N. - 2 * 2 * int m * c a i * x i * y a m)"
  proof -
    have "(\<Sum>((u, v), b)\<leftarrow>xy_terms I N n 2. b * s u * s v)
        = (\<Sum>i = 1..N. \<Sum>m = 1..N. \<Sum>a = 1..n. - 2 * 2 * int m * (I ! (i - 1) ! (a - 1)) * x i * y a m)"
      unfolding xy_terms_def sum_list_concat_map map_map sum_list_upt_Suc
      by (simp add: comp_def x_def y_def)
    also have "\<dots> = (\<Sum>i = 1..N. \<Sum>m = 1..N. \<Sum>a = 1..n. - 2 * 2 * int m * c a i * x i * y a m)"
    proof (intro sum.cong refl)
      fix i m a assume "i \<in> {1..N}" "a \<in> {1..n}"
      then have "I ! (i - 1) ! (a - 1) = c a i"
        unfolding I_def N_def n_def c_def by (intro indicators_nth) auto
      then show "- 2 * 2 * int m * (I ! (i - 1) ! (a - 1)) * x i * y a m
               = - 2 * 2 * int m * c a i * x i * y a m"
        by (simp only:)
    qed
    also have "\<dots> = (\<Sum>a = 1..n. \<Sum>i = 1..N. \<Sum>m = 1..N. - 2 * 2 * int m * c a i * x i * y a m)"
      by (rule swap_inner_all)
    finally show ?thesis .
  qed
  have en: "energy (fst (build_setcover_bqm U V)) s
      = (\<Sum>(v, b)\<leftarrow>x_linear_terms I N 2 1. b * s v) + (\<Sum>(v, b)\<leftarrow>y_linear_terms N n 2. b * s v)
      + (\<Sum>((u, v), b)\<leftarrow>xx_terms I N 2. b * s u * s v) + (\<Sum>((u, v), b)\<leftarrow>yy_terms N n 2. b * s u * s v)
      + (\<Sum>((u, v), b)\<leftarrow>xy_terms I N n 2. b * s u * s v)"
    by (simp add: build_setcover_bqm_closed energy_def I_def N_def n_def)
  have item: "2 * (1 - (\<Sum>m = 1..N. y a m))\<^sup>2
            + 2 * ((\<Sum>m = 1..N. int m * y a m) - (\<Sum>i = 1..N. c a i * x i))\<^sup>2
       = 2 + (\<Sum>m = 1..N. 2 * ((int m)\<^sup>2 - 1) * y a m)
           + (\<Sum>i = 1..N. 2 * c a i * x i)
           + (\<Sum>i = 1..N. \<Sum>j = i + 1..N. 2 * 2 * (c a i * c a j) * x i * x j)
           + (\<Sum>m = 1..N. \<Sum>n' = m + 1..N. 2 * 2 * (1 + int m * int n') * y a m * y a n')
           + (\<Sum>i = 1..N. \<Sum>m = 1..N. - 2 * 2 * int m * c a i * x i * y a m)" for a
    by (rule penalty_expansion [of "y a" x "c a" 2 N]) (rule yb xb cb)+
  have "hamiltonian U V s
      = 2 * (\<Sum>a = 1..n. (1 - (\<Sum>m = 1..N. y a m))\<^sup>2)
      + 2 * (\<Sum>a = 1..n. ((\<Sum>m = 1..N. int m * y a m) - (\<Sum>i = 1..N. I ! (i - 1) ! (a - 1) * x i))\<^sup>2)
      + (\<Sum>i = 1..N. x i)"
    by (simp add: hamiltonian_def Let_def N_def n_def I_def x_def y_def)
  also have "(\<Sum>a = 1..n. ((\<Sum>m = 1..N. int m * y a m) - (\<Sum>i = 1..N. I ! (i - 1) ! (a - 1) * x i))\<^sup>2)
           = (\<Sum>a = 1..n. ((\<Sum>m = 1..N. int m * y a m) - (\<Sum>i = 1..N. c a i * x i))\<^sup>2)"
  proof (rule sum.cong [OF refl])
    fix a assume a: "a \<in> {1..n}"
    have "(\<Sum>i = 1..N. I ! (i - 1) ! (a - 1) * x i) = (\<Sum>i = 1..N. c a i * x i)"
    proof (intro sum.cong refl)
      fix i assume "i \<in> {1..N}"
      with a have "I ! (i - 1) ! (a - 1) = c a i"
        unfolding I_def N_def n_def c_def by (intro indicators_nth) auto
      then show "I ! (i - 1) ! (a - 1) * x i = c a i * x i"
        by (simp only:)
    qed
    then show "((\<Sum>m = 1..N. int m * y a m) - (\<Sum>i = 1..N. I ! (i - 1) ! (a - 1) * x i))\<^sup>2
             = ((\<Sum>m = 1..N. int m * y a m) - (\<Sum>i = 1..N. c a i * x i))\<^sup>2"
      by simp
  qed
  also have "2 * (\<Sum>a = 1..n. (1 - (\<Sum>m = 1..N. y a m))\<^sup>2)
      + 2 * (\<Sum>a = 1..n. ((\<Sum>m = 1..N. int m * y a m) - (\<Sum>i = 1..N. c a i * x i))\<^sup>2)
      + (\<Sum>i = 1..N. x i)
      = (\<Sum>a = 1..n. 2 * (1 - (\<Sum>m = 1..N. y a m))\<^sup>2
            + 2 * ((\<Sum>m = 1..N. int m * y a m) - (\<Sum>i = 1..N. c a i * x i))\<^sup>2)
      + (\<Sum>i = 1..N. x i)"
    by (simp add: sum_distrib_left sum.distrib)
  also have "\<dots> = 2 * int n + energy (fst (build_setcover_bqm U V)) s"
    unfolding item en E1 E2 E3 E4 E5 by (simp add: sum.distrib)
  finally show ?thesis
    by (simp add: n_def)
qed

theorem setcover_energy_witness:
  "(\<forall>v. example_best v = 0 \<or> example_best v = 1)
   \<and> energy (fst (build_setcover_bqm example_U example_V)) example_best
       = hamiltonian example_U example_V example_best - 2 * int (length example_U)
   \<and> energy (fst (build_setcover_bqm example_U example_V)) example_best = - 3"
proof -
  have b: "\<forall>v. example_best v = 0 \<or> example_best v = 1"
    by (simp add: example_best_def)
  from setcover_energy [OF b, of example_U example_V] b example_best_energy
  show ?thesis by simp
qed

subsection \<open>C3: the instance with the sets {a} and {a, b}\<close>

text \<open>
  Claim C3. For the universe \<open>[a, b]\<close> and the sets \<open>[{a}, {a, b}]\<close> the assignment
  \<open>example_best\<close> selects the set \<open>{a, b}\<close> only (\<open>x = [0, 1]\<close>); no assignment of 0 or 1 to
  the variables has a lower energy, and every assignment that selects only \<open>{a}\<close>, both
  sets or no set has a strictly higher energy.
\<close>

theorem setcover_example_minimum:
  assumes "\<forall>v. s v = 0 \<or> s v = 1"
  shows "map example_best (snd (build_setcover_bqm example_U example_V)) = [0, 1]
       \<and> energy (fst (build_setcover_bqm example_U example_V)) example_best
           \<le> energy (fst (build_setcover_bqm example_U example_V)) s
       \<and> (map s (snd (build_setcover_bqm example_U example_V)) \<noteq> [0, 1] \<longrightarrow>
            energy (fst (build_setcover_bqm example_U example_V)) example_best
              < energy (fst (build_setcover_bqm example_U example_V)) s)"
proof -
  from assms have b:
    "s ''x_1'' = 0 \<or> s ''x_1'' = 1" "s ''x_2'' = 0 \<or> s ''x_2'' = 1"
    "s ''y_(1, 1)'' = 0 \<or> s ''y_(1, 1)'' = 1" "s ''y_(1, 2)'' = 0 \<or> s ''y_(1, 2)'' = 1"
    "s ''y_(2, 1)'' = 0 \<or> s ''y_(2, 1)'' = 1" "s ''y_(2, 2)'' = 0 \<or> s ''y_(2, 2)'' = 1"
    by blast+
  have x: "snd (build_setcover_bqm example_U example_V) = [''x_1'', ''x_2'']"
    by (simp add: example_model)
  have best: "map example_best [''x_1'', ''x_2''] = [0, 1]"
    by (simp add: example_best_def)
  show ?thesis
    unfolding example_best_energy x best example_energy [of s]
    using b by (elim disjE) simp_all
qed

theorem setcover_example_minimum_witness:
  "(\<forall>v. example_both v = 0 \<or> example_both v = 1)
   \<and> map example_both (snd (build_setcover_bqm example_U example_V)) \<noteq> [0, 1]
   \<and> energy (fst (build_setcover_bqm example_U example_V)) example_both = - 2
   \<and> energy (fst (build_setcover_bqm example_U example_V)) example_best
       < energy (fst (build_setcover_bqm example_U example_V)) example_both"
proof -
  have b: "\<forall>v. example_both v = 0 \<or> example_both v = 1"
    by (simp add: example_both_def)
  have sel: "map example_both (snd (build_setcover_bqm example_U example_V)) \<noteq> [0, 1]"
    by (simp add: example_model example_both_def)
  have e: "energy (fst (build_setcover_bqm example_U example_V)) example_both = - 2"
    unfolding example_energy by (simp add: example_both_def)
  from setcover_example_minimum [OF b] sel
  have "energy (fst (build_setcover_bqm example_U example_V)) example_best
       < energy (fst (build_setcover_bqm example_U example_V)) example_both"
    by blast
  with b sel e show ?thesis by blast
qed

subsection \<open>C4: the builders write by assignment\<close>




subsection \<open>C5: the order of the writes\<close>




subsection \<open>C6: quadratic keys are in canonical order\<close>

text \<open>
  Claim C6. Every quadratic key of the set-cover model is a pair \<open>(x_i, x_j)\<close> with
  \<open>i < j\<close>, a pair \<open>(y_(a, m), y_(a, n))\<close> with \<open>m < n\<close>, or a pair \<open>(x_i, y_(a, m))\<close>,
  and the model holds at most one entry for an unordered pair of variables. The same holds
  for the combined model, whose other keys pair two \<open>z\<close> variables of items \<open>i < j\<close>, two
  slack variables \<open>i < j\<close>, a \<open>z\<close> with a slack variable, or a \<open>z\<close> with an \<open>x\<close>
  variable.
\<close>

theorem quadratic_keys_canonical:
  "(\<forall>u v c. ((u, v), c) \<in> set (quadratic (fst (build_setcover_bqm U V))) \<longrightarrow>
        (\<exists>i j. 1 \<le> i \<and> i < j \<and> j \<le> length V \<and> (u, v) = (x_label i, x_label j))
      \<or> (\<exists>a m n. 1 \<le> a \<and> a \<le> length U \<and> 1 \<le> m \<and> m < n \<and> n \<le> length V
            \<and> (u, v) = (y_label a m, y_label a n))
      \<or> (\<exists>i a m. 1 \<le> i \<and> i \<le> length V \<and> 1 \<le> a \<and> a \<le> length U \<and> 1 \<le> m \<and> m \<le> length V
            \<and> (u, v) = (x_label i, y_label a m)))
   \<and> (\<forall>u v. length (filter (\<lambda>(k, c). k = (u, v) \<or> k = (v, u))
                  (quadratic (fst (build_setcover_bqm U V)))) \<le> 1)
   \<and> (\<forall>m. build_combined_dqm U' S W Wbudget V' bound = Inr m \<longrightarrow>
        (\<forall>u v d. ((u, v), d) \<in> set (quadratic_biases m) \<longrightarrow>
            (\<exists>i j s1 s2. i < j \<and> (u, v) = (z_label i s1, z_label j s2))
          \<or> (\<exists>i j. i < j \<and> (u, v) = (w_label i, w_label j))
          \<or> (\<exists>i s j. (u, v) = (z_label i s, w_label j))
          \<or> (\<exists>i j. i < j \<and> (u, v) = (x_label i, x_label j))
          \<or> (\<exists>a m n. m < n \<and> (u, v) = (y_label a m, y_label a n))
          \<or> (\<exists>i a m. (u, v) = (x_label i, y_label a m))
          \<or> (\<exists>i s. 1 \<le> s \<and> (u, v) = (z_label i s, x_label (s + 1))))
      \<and> (\<forall>u v. length (filter (\<lambda>(k, d). k = (u, v) \<or> k = (v, u)) (quadratic_biases m)) \<le> 1))"
proof (intro conjI allI impI)
  fix u v c
  assume "((u, v), c) \<in> set (quadratic (fst (build_setcover_bqm U V)))"
  then have "(u, v) \<in> fst ` set (quadratic (fst (build_setcover_bqm U V)))" by force
  then show "(\<exists>i j. 1 \<le> i \<and> i < j \<and> j \<le> length V \<and> (u, v) = (x_label i, x_label j))
      \<or> (\<exists>a m n. 1 \<le> a \<and> a \<le> length U \<and> 1 \<le> m \<and> m < n \<and> n \<le> length V
            \<and> (u, v) = (y_label a m, y_label a n))
      \<or> (\<exists>i a m. 1 \<le> i \<and> i \<le> length V \<and> 1 \<le> a \<and> a \<le> length U \<and> 1 \<le> m \<and> m \<le> length V
            \<and> (u, v) = (x_label i, y_label a m))"
    by (rule setcover_quadratic_keys)
next
  fix u v
  show "length (filter (\<lambda>(k, c). k = (u, v) \<or> k = (v, u))
                  (quadratic (fst (build_setcover_bqm U V)))) \<le> 1"
    using setcover_quadratic_distinct setcover_quadratic_no_mirror
    by (rule unordered_count_le_1)
next
  fix m u v d
  assume b: "build_combined_dqm U' S W Wbudget V' bound = Inr m"
    and "((u, v), d) \<in> set (quadratic_biases m)"
  then have "(u, v) \<in> fst ` set (quadratic_biases m)" by force
  with b show "(\<exists>i j s1 s2. i < j \<and> (u, v) = (z_label i s1, z_label j s2))
          \<or> (\<exists>i j. i < j \<and> (u, v) = (w_label i, w_label j))
          \<or> (\<exists>i s j. (u, v) = (z_label i s, w_label j))
          \<or> (\<exists>i j. i < j \<and> (u, v) = (x_label i, x_label j))
          \<or> (\<exists>a m n. m < n \<and> (u, v) = (y_label a m, y_label a n))
          \<or> (\<exists>i a m. (u, v) = (x_label i, y_label a m))
          \<or> (\<exists>i s. 1 \<le> s \<and> (u, v) = (z_label i s, x_label (s + 1)))"
    by (rule combined_quadratic_keys)
next
  fix m u v
  assume b: "build_combined_dqm U' S W Wbudget V' bound = Inr m"
  show "length (filter (\<lambda>(k, d). k = (u, v) \<or> k = (v, u)) (quadratic_biases m)) \<le> 1"
    using combined_quadratic_distinct [OF b] combined_quadratic_no_mirror [OF b]
    by (rule unordered_count_le_1)
qed

theorem quadratic_keys_canonical_witness:
  "((''x_1'', ''x_2''), 4) \<in> set (quadratic (fst (build_setcover_bqm example_U example_V)))
   \<and> ((\<exists>i j. 1 \<le> i \<and> i < j \<and> j \<le> length example_V \<and> (''x_1'', ''x_2'') = (x_label i, x_label j))
      \<or> (\<exists>a m n. 1 \<le> a \<and> a \<le> length example_U \<and> 1 \<le> m \<and> m < n \<and> n \<le> length example_V
            \<and> (''x_1'', ''x_2'') = (y_label a m, y_label a n))
      \<or> (\<exists>i a m. 1 \<le> i \<and> i \<le> length example_V \<and> 1 \<le> a \<and> a \<le> length example_U \<and> 1 \<le> m
            \<and> m \<le> length example_V \<and> (''x_1'', ''x_2'') = (x_label i, y_label a m)))
   \<and> length (filter (\<lambda>(k, c). k = (''x_1'', ''x_2'') \<or> k = (''x_2'', ''x_1''))
         (quadratic (fst (build_setcover_bqm example_U example_V)))) = 1
   \<and> build_combined_dqm example_U example_S example_W 3 example_values example_bound
     = Inr (projr (build_combined_dqm example_U example_S example_W 3 example_values example_bound))
   \<and> length (filter (\<lambda>(k, d). k = (''z1,1'', ''x_2'') \<or> k = (''x_2'', ''z1,1''))
         (quadratic_biases (projr (build_combined_dqm example_U example_S example_W 3
            example_values example_bound)))) \<le> 1"
proof -
  note T = quadratic_keys_canonical [of example_U example_V example_U example_S example_W 3
      example_values example_bound]
  have mem: "((''x_1'', ''x_2''), 4) \<in> set (quadratic (fst (build_setcover_bqm example_U example_V)))"
    by (simp add: example_model)
  have cnt: "length (filter (\<lambda>(k, c). k = (''x_1'', ''x_2'') \<or> k = (''x_2'', ''x_1''))
         (quadratic (fst (build_setcover_bqm example_U example_V)))) = 1"
    by (simp add: example_model)
  have b: "build_combined_dqm example_U example_S example_W 3 example_values example_bound
     = Inr (projr (build_combined_dqm example_U example_S example_W 3 example_values example_bound))"
    by (rule example_combined_succeeds)
  from T [THEN conjunct1, rule_format, OF mem]
    T [THEN conjunct2, THEN conjunct2, rule_format, OF b, THEN conjunct2, rule_format,
       of "''z1,1''" "''x_2''"]
    mem cnt b
  show ?thesis by (intro conjI)
qed

subsection \<open>C7: no self-pair\<close>

text \<open>
  Claim C7. The checked write refuses a pair \<open>(v, v)\<close>. The set-cover builder never writes
  such a pair: every key it writes pairs two different variables, so its writes pass the
  check unchanged and the model has no diagonal entry. The squares of the variables are in
  the linear coefficients instead: \<open>A \<Sum>\<^sub>a I\<^sub>i\<^sub>a + B\<close> for \<open>x_i\<close> and \<open>A (m\<^sup>2 - 1)\<close> for
  \<open>y_(a, m)\<close>, which are the coefficients that the expansion of the Hamiltonian gives when
  the square of a binary variable is the variable.
\<close>

theorem self_pair_never_written:
  "checked_quadratic_setitem (v, v) c m = Inl ValueError
   \<and> (\<forall>u v' c'. ((u, v'), c') \<in> set (quadratic (fst (build_setcover_bqm U V))) \<longrightarrow> u \<noteq> v')
   \<and> checked_writes (quadratic (fst (build_setcover_bqm U V))) m0
        = Inr (quadratic_writes (quadratic (fst (build_setcover_bqm U V))) m0)
   \<and> (\<forall>i. 1 \<le> i \<and> i \<le> length V \<longrightarrow>
         map_of (linear (fst (build_setcover_bqm U V))) (x_label i)
           = Some (2 * sum_list (indicators U V ! (i - 1)) + 1))
   \<and> (\<forall>a n. 1 \<le> a \<and> a \<le> length U \<and> 1 \<le> n \<and> n \<le> length V \<longrightarrow>
         map_of (linear (fst (build_setcover_bqm U V))) (y_label a n) = Some (2 * ((int n)\<^sup>2 - 1)))"
proof -
  have ns: "u \<noteq> v'" if "((u, v'), c') \<in> set (quadratic (fst (build_setcover_bqm U V)))" for u v' c'
  proof -
    from that have "(u, v') \<in> fst ` set (quadratic (fst (build_setcover_bqm U V)))" by force
    from setcover_quadratic_keys [OF this] show ?thesis by auto
  qed
  have cw: "checked_writes (quadratic (fst (build_setcover_bqm U V))) m0
        = Inr (quadratic_writes (quadratic (fst (build_setcover_bqm U V))) m0)"
    unfolding quadratic_writes_def by (rule checked_writes_no_self_pair) (rule ns)
  show ?thesis
  proof (intro conjI allI impI)
    show "checked_quadratic_setitem (v, v) c m = Inl ValueError"
      by (simp add: checked_quadratic_setitem_def)
    show "checked_writes (quadratic (fst (build_setcover_bqm U V))) m0
        = Inr (quadratic_writes (quadratic (fst (build_setcover_bqm U V))) m0)"
      by (rule cw)
  next
    fix u v' c' assume "((u, v'), c') \<in> set (quadratic (fst (build_setcover_bqm U V)))"
    then show "u \<noteq> v'" by (rule ns)
  next
    fix i assume "1 \<le> i \<and> i \<le> length V"
    then show "map_of (linear (fst (build_setcover_bqm U V))) (x_label i)
           = Some (2 * sum_list (indicators U V ! (i - 1)) + 1)"
      by (intro setcover_linear_lookup) simp_all
  next
    fix a n assume "1 \<le> a \<and> a \<le> length U \<and> 1 \<le> n \<and> n \<le> length V"
    then show "map_of (linear (fst (build_setcover_bqm U V))) (y_label a n) = Some (2 * ((int n)\<^sup>2 - 1))"
      by (intro setcover_linear_lookup) simp_all
  qed
qed

theorem self_pair_never_written_witness:
  "((''x_1'', ''x_2''), 4) \<in> set (quadratic (fst (build_setcover_bqm example_U example_V)))
   \<and> ''x_1'' \<noteq> ''x_2''
   \<and> (1 :: nat) \<le> 2 \<and> 2 \<le> length example_V
   \<and> map_of (linear (fst (build_setcover_bqm example_U example_V))) (x_label 2)
        = Some (2 * sum_list (indicators example_U example_V ! (2 - 1)) + 1)
   \<and> map_of (linear (fst (build_setcover_bqm example_U example_V))) (x_label 2) = Some 5"
proof -
  note T = self_pair_never_written [of "''x_1''" 0 empty_bqm example_U example_V empty_bqm]
  have mem: "((''x_1'', ''x_2''), 4) \<in> set (quadratic (fst (build_setcover_bqm example_U example_V)))"
    by (simp add: example_model)
  have h: "(1 :: nat) \<le> 2 \<and> 2 \<le> length example_V"
    by (simp add: example_V_def)
  have v: "map_of (linear (fst (build_setcover_bqm example_U example_V))) (x_label 2) = Some 5"
    by code_simp
  from T [THEN conjunct2, THEN conjunct1, rule_format, OF mem]
    T [THEN conjunct2, THEN conjunct2, THEN conjunct2, THEN conjunct1, rule_format, OF h]
    mem h v
  show ?thesis by simp
qed

subsection \<open>C8: the slack setup outside its domain\<close>

text \<open>
  Claim C8, as amended. For a budget of 0 and for every negative budget the slack setup
  fails with \<open>ValueError\<close> (the domain error of \<open>log2\<close>) and returns no weights; for
  every budget from 1 on it returns at least one weight.
\<close>

theorem slack_setup_domain:
  "(B \<le> 0 \<longrightarrow> slack_weights B = Inl ValueError)
   \<and> (1 \<le> B \<longrightarrow> (\<exists>w. slack_weights B = Inr w \<and> w \<noteq> []))"
  by (simp add: slack_weights_def floor_log2_def)

theorem slack_setup_domain_witness:
  "(- 3 :: int) \<le> 0 \<and> slack_weights (- 3) = Inl ValueError
   \<and> (1 :: int) \<le> 5 \<and> (\<exists>w. slack_weights 5 = Inr w \<and> w \<noteq> [])"
  using slack_setup_domain [of "- 3"] slack_setup_domain [of 5] by simp

text \<open>
  The claim as stated fails at the budget 0: the setup raises, it does not return the empty
  list of weights.
\<close>

theorem zero_bound_counterexample:
  "slack_weights 0 = Inl ValueError \<and> slack_weights 0 \<noteq> Inr []"
  by (simp add: slack_weights_def floor_log2_def)

subsection \<open>C9: a pair marked unavailable is modelled like any other\<close>



subsection \<open>C10: the H3 loop writes zeros only\<close>

text \<open>
  Claim C10. The H3 loop writes a key \<open>(z i,s, x_(s+1))\<close> only for suppliers \<open>s \<ge> 1\<close>,
  never for supplier 0, and with \<open>C = 0\<close> every bias it writes is zero. The built model
  therefore has no nonzero bias between a \<open>z\<close> and an \<open>x\<close> variable, and it is the model
  built without the H3 loop: the same variables and linear biases, the same quadratic bias
  for every pair of variables and of cases (a pair that a model does not hold has bias
  zero), and the same energy for every sample. The entries that the loop adds hold zeros.
\<close>

theorem h3_block_changes_nothing:
  assumes build: "build_combined_dqm U S W Wbudget V bound = Inr m"
  shows "\<exists>w m0. slack_weights Wbudget = Inr w
      \<and> build_combined_dqm_without_h3 U S W Wbudget V bound = Inr m0
      \<and> quadratic_biases m = fold (\<lambda>(k, v). AList.update k v)
            (h3_writes 0 (length V) (map (\<lambda>b. b + 1) bound) (length S) (length w)) (quadratic_biases m0)
      \<and> (\<forall>u v d. ((u, v), d) \<in> set (h3_writes 0 (length V) (map (\<lambda>b. b + 1) bound) (length S) (length w)) \<longrightarrow>
            (\<exists>i s. i < length V \<and> 1 \<le> s \<and> s < length S \<and> u = z_label i s \<and> v = x_label (s + 1))
            \<and> zero_biases d)
      \<and> variables m = variables m0 \<and> linear_biases m = linear_biases m0
      \<and> (\<forall>u v p q. quadratic_bias m u v p q = quadratic_bias m0 u v p q)
      \<and> (\<forall>i s p q. quadratic_bias m (z_label i s) (x_label (s + 1)) p q = 0)
      \<and> (\<forall>i. map_of (quadratic_biases m) (z_label i 0, x_label 1) = None)
      \<and> (\<forall>smp. dqm_energy m smp = dqm_energy m0 smp)"
proof -
  define lg :: rat where "lg = of_int (Max (set V)) * (1 / 2)"
  define bound' where "bound' = map (\<lambda>b. b + 1) bound"
  from build obtain w m0 where w: "slack_weights Wbudget = Inr w" and "V \<noteq> []"
    and "dims_ok V W bound' (length S)"
    and m0: "build_combined_dqm_without_h3 U S W Wbudget V bound = Inr m0"
    and vm: "variables m = variables m0" and lm: "linear_biases m = linear_biases m0"
    and qm: "quadratic_biases m = fold (\<lambda>(k, v). AList.update k v)
           (h3_writes 0 (length V) bound' (length S) (length w)) (quadratic_biases m0)"
    and q0: "quadratic_biases m0 = fold (\<lambda>(k, v). AList.update k v)
           (dqm_xx_terms (indicators U S) (length S) @ dqm_yy_terms (length S) (length U)
              @ dqm_xy_terms (indicators U S) (length S) (length U))
           (fold (\<lambda>(k, v). AList.update k v)
             (zz_terms lg W bound' (length S) (length V) @ ww_terms lg w
                @ zw_terms lg W bound' (length S) (length V) w) [])"
    and "\<forall>k. (\<forall>i. k \<noteq> x_label i) \<longrightarrow> (\<forall>a n. k \<noteq> y_label a n) \<longrightarrow>
           map_of (variables m0) k
             = map_of (z_variable_terms (length V) (length S) bound' @ w_variable_terms (length w)) k"
    and "\<forall>k. (\<forall>i. k \<noteq> x_label i) \<longrightarrow> (\<forall>a n. k \<noteq> y_label a n) \<longrightarrow>
           map_of (linear_biases m0) k
             = map_of (fold (\<lambda>(k, v). AList.update k v)
                 (z_linear_terms lg 0 V W bound' (length S) @ w_linear_terms lg w)
                 (map (\<lambda>(l, n). (l, replicate n 0))
                    (z_variable_terms (length V) (length S) bound' @ w_variable_terms (length w)))) k"
    unfolding lg_def bound'_def by (rule build_combined_dqm_fields)
  define H where "H = h3_writes 0 (length V) bound' (length S) (length w)"
  have base: "k \<noteq> (z_label i s, x_label j)" if "k \<in> fst ` set (quadratic_biases m0)" for k i s j
    using that unfolding q0 by (rule base_keys_not_h3)
  have none0: "map_of (quadratic_biases m0) (z_label i s, x_label j) = None" for i s j
    using base [of "(z_label i s, x_label j)" i s j] by (intro map_of_absent) blast
  have entries: "(\<exists>i s. i < length V \<and> 1 \<le> s \<and> s < length S \<and> u = z_label i s \<and> v = x_label (s + 1))
        \<and> zero_biases d" if "((u, v), d) \<in> set H" for u v d
    using that h3_entries [of u v d 0 "length V" bound' "length S" "length w"]
      h3_writes_zero [of "(u, v)" d "length V" bound' "length S" "length w"]
    unfolding H_def by blast
  have qb: "quadratic_bias m u v p q = quadratic_bias m0 u v p q" for u v p q
  proof (cases "map_of (rev H) (u, v)")
    case None
    then show ?thesis
      by (simp add: quadratic_bias_def qm H_def [symmetric] map_of_fold_update map_add_def)
  next
    case (Some d)
    then have "((u, v), d) \<in> set H"
      using map_of_SomeD [of "rev H" "(u, v)" d] by simp
    from entries [OF this] obtain i s where uv: "u = z_label i s" "v = x_label (s + 1)"
      and zd: "zero_biases d" by blast
    have "quadratic_bias m u v p q = (case map_of d (p, q) of None \<Rightarrow> 0 | Some b \<Rightarrow> b)"
      using Some by (simp add: quadratic_bias_def qm H_def [symmetric] map_of_fold_update map_add_def)
    also have "\<dots> = 0"
      using zd by (rule zero_biases_lookup)
    also have "0 = quadratic_bias m0 u v p q"
      by (simp add: quadratic_bias_def uv none0)
    finally show ?thesis .
  qed
  have zx: "quadratic_bias m (z_label i s) (x_label (s + 1)) p q = 0" for i s p q
    unfolding qb by (simp add: quadratic_bias_def none0)
  have s0: "map_of (quadratic_biases m) (z_label i 0, x_label 1) = None" for i
  proof -
    have "(z_label i 0, x_label 1) \<notin> fst ` set H"
      unfolding H_def by (auto dest!: h3_keys)
    then have "map_of (quadratic_biases m) (z_label i 0, x_label 1)
             = map_of (quadratic_biases m0) (z_label i 0, x_label 1)"
      unfolding qm H_def [symmetric] by (rule lookup_fold_update_other)
    then show ?thesis
      by (simp add: none0)
  qed
  have en: "dqm_energy m smp = dqm_energy m0 smp" for smp
  proof -
    have "quadratic_energy (fold (\<lambda>(k, v). AList.update k v) H (quadratic_biases m0)) smp
        = quadratic_energy (quadratic_biases m0) smp"
    proof (rule quadratic_energy_fold_zero)
      fix k d assume "(k, d) \<in> set H"
      then show "zero_biases d"
        using entries [of "fst k" "snd k" d] by simp
    next
      fix k d d' assume kd: "(k, d) \<in> set H" and "(k, d') \<in> set (quadratic_biases m0)"
      then have "k \<in> fst ` set (quadratic_biases m0)" by force
      moreover from kd obtain i s where "k = (z_label i s, x_label (s + 1))"
        using entries [of "fst k" "snd k" d] by (cases k) auto
      ultimately have False using base by blast
      then show "zero_biases d'" ..
    qed
    then show ?thesis
      by (simp add: dqm_energy_split lm qm H_def)
  qed
  show ?thesis
  proof (intro exI [of _ w] exI [of _ m0] conjI allI impI)
    show "slack_weights Wbudget = Inr w" by (rule w)
    show "build_combined_dqm_without_h3 U S W Wbudget V bound = Inr m0" by (rule m0)
    show "quadratic_biases m = fold (\<lambda>(k, v). AList.update k v)
            (h3_writes 0 (length V) (map (\<lambda>b. b + 1) bound) (length S) (length w)) (quadratic_biases m0)"
      using qm by (simp only: bound'_def)
    show "variables m = variables m0" by (rule vm)
    show "linear_biases m = linear_biases m0" by (rule lm)
  next
    fix u v d
    assume "((u, v), d) \<in> set (h3_writes 0 (length V) (map (\<lambda>b. b + 1) bound) (length S) (length w))"
    then have "((u, v), d) \<in> set H" by (simp only: H_def bound'_def)
    from entries [OF this]
    show "\<exists>i s. i < length V \<and> 1 \<le> s \<and> s < length S \<and> u = z_label i s \<and> v = x_label (s + 1)"
      and "zero_biases d" by blast+
  next
    fix u v p q
    show "quadratic_bias m u v p q = quadratic_bias m0 u v p q" by (rule qb)
  next
    fix i s p q
    show "quadratic_bias m (z_label i s) (x_label (s + 1)) p q = 0" by (rule zx)
  next
    fix i
    show "map_of (quadratic_biases m) (z_label i 0, x_label 1) = None" by (rule s0)
  next
    fix smp
    show "dqm_energy m smp = dqm_energy m0 smp" by (rule en)
  qed
qed

theorem h3_block_changes_nothing_witness:
  "build_combined_dqm example_U example_S example_W 3 example_values example_bound
     = Inr (projr (build_combined_dqm example_U example_S example_W 3 example_values example_bound))
   \<and> map_of (quadratic_biases (projr (build_combined_dqm example_U example_S example_W 3
         example_values example_bound))) (z_label 1 1, x_label 2) = Some [((0, 1), 0), ((1, 1), 0)]
   \<and> map_of (quadratic_biases (projr (build_combined_dqm_without_h3 example_U example_S example_W 3
         example_values example_bound))) (z_label 1 1, x_label 2) = None
   \<and> (\<exists>m0. build_combined_dqm_without_h3 example_U example_S example_W 3 example_values example_bound
          = Inr m0
      \<and> (\<forall>smp. dqm_energy (projr (build_combined_dqm example_U example_S example_W 3
             example_values example_bound)) smp = dqm_energy m0 smp)
      \<and> (\<forall>u v p q. quadratic_bias (projr (build_combined_dqm example_U example_S example_W 3
             example_values example_bound)) u v p q = quadratic_bias m0 u v p q))"
proof (intro conjI)
  show b: "build_combined_dqm example_U example_S example_W 3 example_values example_bound
     = Inr (projr (build_combined_dqm example_U example_S example_W 3 example_values example_bound))"
    by (rule example_combined_succeeds)
  show "map_of (quadratic_biases (projr (build_combined_dqm example_U example_S example_W 3
         example_values example_bound))) (z_label 1 1, x_label 2) = Some [((0, 1), 0), ((1, 1), 0)]"
    by code_simp
  show "map_of (quadratic_biases (projr (build_combined_dqm_without_h3 example_U example_S example_W 3
         example_values example_bound))) (z_label 1 1, x_label 2) = None"
    by code_simp
  from h3_block_changes_nothing [OF b] obtain w m0 where
    "build_combined_dqm_without_h3 example_U example_S example_W 3 example_values example_bound = Inr m0"
    and "\<forall>u v p q. quadratic_bias (projr (build_combined_dqm example_U example_S example_W 3
             example_values example_bound)) u v p q = quadratic_bias m0 u v p q"
    and "\<forall>smp. dqm_energy (projr (build_combined_dqm example_U example_S example_W 3
             example_values example_bound)) smp = dqm_energy m0 smp"
    by (elim exE conjE)
  then show "\<exists>m0. build_combined_dqm_without_h3 example_U example_S example_W 3 example_values example_bound
          = Inr m0
      \<and> (\<forall>smp. dqm_energy (projr (build_combined_dqm example_U example_S example_W 3
             example_values example_bound)) smp = dqm_energy m0 smp)
      \<and> (\<forall>u v p q. quadratic_bias (projr (build_combined_dqm example_U example_S example_W 3
             example_values example_bound)) u v p q = quadratic_bias m0 u v p q)"
    by (intro exI [of _ m0] conjI)
qed

end
